theory Spec2Isabelle
  imports Main "HOL-Library.AList" "HOL-Library.Char_ord" "HOL-Library.List_Lexorder"
    "HOL-Library.Sublist"
begin

section \<open>JSON-like Python values\<close>

text \<open>
  The schema dictionaries handled by \<^verbatim>\<open>typeddict_to_schema.py\<close> are plain Python
  values: \<^verbatim>\<open>None\<close>, booleans, integers, floats, strings, lists and dictionaries.
  A Python \<^verbatim>\<open>dict\<close> keeps its keys in insertion order, and the order is visible in
  the file written by \<^verbatim>\<open>json.dump\<close>, so a dictionary is an association list:
  the entries in insertion order. A float is kept as mantissa and exponent; none of the
  functions below looks inside one.
\<close>

datatype json =
    JNull
  | JBool bool
  | JInt int
  | JFloat int int
  | JStr string
  | JList "json list"
  | JDict "(string \<times> json) list"

type_synonym dict = "(string \<times> json) list"

text \<open>The classes of these values, and Python's subclass relation on them:
  \<^verbatim>\<open>bool\<close> is a subclass of \<^verbatim>\<open>int\<close>, every other pair of distinct classes is unrelated.\<close>

datatype py_class = NoneType | BoolC | IntC | FloatC | StrC | ListC | DictC

fun type_of :: "json \<Rightarrow> py_class" where
  "type_of JNull = NoneType"
| "type_of (JBool _) = BoolC"
| "type_of (JInt _) = IntC"
| "type_of (JFloat _ _) = FloatC"
| "type_of (JStr _) = StrC"
| "type_of (JList _) = ListC"
| "type_of (JDict _) = DictC"

definition issubclass :: "py_class \<Rightarrow> py_class \<Rightarrow> bool" where
  "issubclass c d = (c = d \<or> (c = BoolC \<and> d = IntC))"

definition isinstance :: "json \<Rightarrow> py_class \<Rightarrow> bool" where
  "isinstance v c = issubclass (type_of v) c"

text \<open>
  The exceptions that the functions modelled here can raise. The last two are not Python
  exceptions. \<open>NoSuchObject\<close> is the result when a state holds no object for a class
  that an annotation names; Python cannot build such a state. \<open>Unmodelled\<close> marks the one
  place where the model stops: formatting a schema title that is not a string.
\<close>

datatype py_error =
    AttributeError | AssertionError | KeyError | TypeError | IndexError | RecursionError
  | NameError | NoSuchObject | Unmodelled

text \<open>Reading a value that is known to be a dictionary or a list.\<close>

fun the_dict :: "json \<Rightarrow> dict" where
  "the_dict (JDict d) = d"
| "the_dict _ = []"

fun the_list :: "json \<Rightarrow> json list" where
  "the_list (JList l) = l"
| "the_list _ = []"

text \<open>
  Dictionary operations: \<^verbatim>\<open>key in d\<close> and \<^verbatim>\<open>d[key]\<close> read the first entry with that
  key (\<open>map_of\<close>); \<^verbatim>\<open>d[key] = v\<close> replaces the value in place when the key is present
  and appends a new entry at the end otherwise (\<open>AList.update\<close>). A well-formed
  dictionary has no key twice.
\<close>

definition contains :: "dict \<Rightarrow> string \<Rightarrow> bool" where
  "contains d key = (map_of d key \<noteq> None)"

definition keys :: "dict \<Rightarrow> string list" where
  "keys d = map fst d"

definition wf_dict :: "dict \<Rightarrow> bool" where
  "wf_dict d = distinct (keys d)"

section \<open>\<^verbatim>\<open>merge_dicts\<close>\<close>

text \<open>
  \<^verbatim>\<open>
  def merge_dicts(dict1, dict2):
      return_dict = dict2.copy()
      for key in dict1:
          if key not in dict2:
              return_dict[key] = dict1[key]
          elif not isinstance(dict1[key], type(dict2[key])):
              return_dict[key] = dict1[key]
          elif isinstance(dict1[key], dict):
              return_dict[key] = merge_dicts(dict1[key], dict2[key])
          elif isinstance(dict1[key], list):
              return_dict[key] = dict1[key] + dict2[key]
      return return_dict
  \<close>
  The loop is a fold over the keys of \<open>dict1\<close> with \<open>return_dict\<close> as the accumulator.
  In \<^verbatim>\<open>parse_typeddict_to_schema\<close> the first argument is the hand-authored fragment
  and the second the generated schema.
\<close>

function merge_dicts :: "dict \<Rightarrow> dict \<Rightarrow> dict" where
  "merge_dicts dict1 dict2 =
     fold (\<lambda>key return_dict.
        case map_of dict1 key of
          None \<Rightarrow> return_dict
        | Some v1 \<Rightarrow>
            (case map_of dict2 key of
               None \<Rightarrow> AList.update key v1 return_dict
             | Some v2 \<Rightarrow>
                 if \<not> isinstance v1 (type_of v2) then AList.update key v1 return_dict
                 else if isinstance v1 DictC then
                   AList.update key (JDict (merge_dicts (the_dict v1) (the_dict v2))) return_dict
                 else if isinstance v1 ListC then
                   AList.update key (JList (the_list v1 @ the_list v2)) return_dict
                 else return_dict))
       (keys dict1) dict2"
  by pat_completeness auto
termination
proof (relation "measure (\<lambda>(d1, d2). size_list (size_prod (\<lambda>_. 0) size) d1)")
  show "wf (measure (\<lambda>(d1 :: dict, d2 :: dict). size_list (size_prod (\<lambda>_. 0) size) d1))"
    by simp
next
  fix dict1 dict2 :: dict and key :: string and v1 v2 :: json
  assume v1: "map_of dict1 key = Some v1" and d: "isinstance v1 DictC"
  have "size v < Suc (size_list (size_prod (\<lambda>_. 0) size) al)"
    if "map_of al key = Some v" for al :: dict and v
    using that by (induction al) (auto split: if_splits)
  from this [OF v1] d
  show "((the_dict v1, the_dict v2), (dict1, dict2))
          \<in> measure (\<lambda>(d1, d2). size_list (size_prod (\<lambda>_. 0) size) d1)"
    by (cases v1) (auto simp: isinstance_def issubclass_def)
qed

declare merge_dicts.simps [simp del]

text \<open>
  Two abbreviations used to reason about the loop: \<open>merge_entry\<close> is the value that one
  iteration stores under its key (\<open>None\<close> when the iteration stores nothing), and
  \<open>assign\<close> is the iteration itself.
\<close>

definition merge_entry :: "dict \<Rightarrow> dict \<Rightarrow> string \<Rightarrow> json option" where
  "merge_entry dict1 dict2 key =
     (case map_of dict1 key of
        None \<Rightarrow> None
      | Some v1 \<Rightarrow>
          (case map_of dict2 key of
             None \<Rightarrow> Some v1
           | Some v2 \<Rightarrow>
               if \<not> isinstance v1 (type_of v2) then Some v1
               else if isinstance v1 DictC then
                 Some (JDict (merge_dicts (the_dict v1) (the_dict v2)))
               else if isinstance v1 ListC then
                 Some (JList (the_list v1 @ the_list v2))
               else None))"

definition assign :: "(string \<Rightarrow> json option) \<Rightarrow> string \<Rightarrow> dict \<Rightarrow> dict" where
  "assign g key return_dict =
     (case g key of None \<Rightarrow> return_dict | Some v \<Rightarrow> AList.update key v return_dict)"

section \<open>\<^verbatim>\<open>sort_jsonschema\<close>\<close>

text \<open>
  \<^verbatim>\<open>
  def sort_jsonschema(schema):
      for key in schema:
          if key == "properties":
              schema[key] = OrderedDict(
                  sorted(list(schema[key].items()), key=lambda x: x[0]))
          elif isinstance(schema[key], dict):
              schema[key] = sort_jsonschema(schema[key])
      return schema
  \<close>
  The loop assigns only to the key it is visiting and visits every key once, so
  \<^verbatim>\<open>schema[key]\<close> at the iteration for \<open>key\<close> is still the value the dictionary had on
  entry; the model reads it from \<open>schema\<close> and threads the updated dictionary.
  \<^verbatim>\<open>.items()\<close> exists on dictionaries only: any other value under \<^verbatim>\<open>properties\<close>
  raises \<^verbatim>\<open>AttributeError\<close>. \<^verbatim>\<open>sorted\<close> is stable and compares the keys as
  Python strings, that is lexicographically by character code, which is the order
  on \<open>string\<close> here; \<open>sort_key\<close> is stable too. An \<^verbatim>\<open>OrderedDict\<close> is written by
  \<^verbatim>\<open>json.dump\<close> exactly as a \<^verbatim>\<open>dict\<close> with the same entries in the same order, so
  both are \<open>JDict\<close>.
\<close>

function sort_jsonschema :: "dict \<Rightarrow> py_error + dict" where
  "sort_jsonschema schema =
     fold (\<lambda>key acc.
        case acc of
          Inl e \<Rightarrow> Inl e
        | Inr schema' \<Rightarrow>
            (case map_of schema key of
               None \<Rightarrow> Inr schema'
             | Some v \<Rightarrow>
                 if key = ''properties'' then
                   (if isinstance v DictC
                    then Inr (AList.update key (JDict (sort_key fst (the_dict v))) schema')
                    else Inl AttributeError)
                 else if isinstance v DictC then
                   (case sort_jsonschema (the_dict v) of
                      Inl e \<Rightarrow> Inl e
                    | Inr d \<Rightarrow> Inr (AList.update key (JDict d) schema'))
                 else Inr schema'))
       (keys schema) (Inr schema)"
  by pat_completeness auto
termination
proof (relation "measure (size_list (size_prod (\<lambda>_. 0) size))")
  show "wf (measure (size_list (size_prod (\<lambda>_. 0) size) :: dict \<Rightarrow> nat))"
    by simp
next
  fix schema :: dict and key :: string and v :: json
  assume v: "map_of schema key = Some v" and d: "isinstance v DictC"
  have "size w < Suc (size_list (size_prod (\<lambda>_. 0) size) al)"
    if "map_of al key = Some w" for al :: dict and w
    using that by (induction al) (auto split: if_splits)
  from this [OF v] d
  show "(the_dict v, schema) \<in> measure (size_list (size_prod (\<lambda>_. 0) size))"
    by (cases v) (auto simp: isinstance_def issubclass_def)
qed

declare sort_jsonschema.simps [simp del]

section \<open>Type annotations\<close>

text \<open>
  The generator inspects the field annotations of \<^verbatim>\<open>TypedDict\<close> classes with
  \<^verbatim>\<open>get_origin\<close> and \<^verbatim>\<open>get_args\<close>. An annotation, or an element of one, is:
  \<^item> \<open>Cls n\<close>: a class or special form without parameters (\<^verbatim>\<open>int\<close>, \<^verbatim>\<open>str\<close>, \<^verbatim>\<open>Any\<close>,
    \<^verbatim>\<open>NoneType\<close>);
  \<^item> \<open>TypedDictCls n\<close>: the \<^verbatim>\<open>TypedDict\<close> class named \<open>n\<close>, an instance of
    \<^verbatim>\<open>_TypedDictMeta\<close>; its annotations are mutable and live in the state;
  \<^item> \<open>ModelCls i\<close>: the \<open>i\<close>-th model class made by \<^verbatim>\<open>create_model\<close>; two model
    classes are the same object exactly when they have the same index;
  \<^item> \<open>Generic c args\<close>: what subscripting the class or form \<open>c\<close> itself returns:
    \<^verbatim>\<open>dict[str, X]\<close> is \<open>Generic ''dict'' [Cls ''str'', X]\<close>, and \<^verbatim>\<open>Optional[X]\<close> is
    \<open>Generic ''Union'' [X, Cls ''NoneType'']\<close>;
  \<^item> \<open>TypingAlias c args\<close>: the alias that the module \<^verbatim>\<open>typing\<close> has for the class \<open>c\<close>,
    bare (\<^verbatim>\<open>List\<close> is \<open>TypingAlias ''list'' []\<close>) or subscripted (\<^verbatim>\<open>Dict[str, X]\<close> is
    \<open>TypingAlias ''dict'' [Cls ''str'', X]\<close>). Its origin is the class \<open>c\<close>, and it is a
    different object from \<^verbatim>\<open>c[args]\<close>, to which it never compares equal;
  \<^item> \<open>Annotated t ms\<close>: \<^verbatim>\<open>Annotated[t, m1, ...]\<close>;
  \<^item> \<open>NotRequired t\<close>: \<^verbatim>\<open>NotRequired[t]\<close>;
  \<^item> \<open>AsRef n\<close>: an \<^verbatim>\<open>AsRef(n)\<close> tag;
  \<^item> \<open>FieldInfo d r\<close>: the object returned by \<^verbatim>\<open>Field(...)\<close>, with its description and
    its \<^verbatim>\<open>regex\<close>. The code assigns to \<^verbatim>\<open>regex\<close> in place; the model returns the
    changed value, which is the same as long as one \<^verbatim>\<open>FieldInfo\<close> object sits in one
    annotation only.
\<close>

datatype anno =
    Cls string
  | TypedDictCls string
  | ModelCls nat
  | Generic string "anno list"
  | TypingAlias string "anno list"
  | Annotated anno "anno list"
  | NotRequired anno
  | AsRef string
  | FieldInfo "string option" "string option"

datatype origin = OAnnotated | ONotRequired | OClass string

fun get_origin :: "anno \<Rightarrow> origin option" where
  "get_origin (Generic c _) = Some (OClass c)"
| "get_origin (TypingAlias c _) = Some (OClass c)"
| "get_origin (Annotated _ _) = Some OAnnotated"
| "get_origin (NotRequired _) = Some ONotRequired"
| "get_origin _ = None"

fun get_args :: "anno \<Rightarrow> anno list" where
  "get_args (Generic _ args) = args"
| "get_args (TypingAlias _ args) = args"
| "get_args (Annotated t ms) = t # ms"
| "get_args (NotRequired t) = [t]"
| "get_args _ = []"

text \<open>
  Python's \<^verbatim>\<open>==\<close> on annotations: classes are equal when they are the same class; a
  subscripted class equals a subscripted class, and an alias of \<^verbatim>\<open>typing\<close> an alias of
  \<^verbatim>\<open>typing\<close>, when origin and arguments are equal; and two \<^verbatim>\<open>Union\<close>s are equal when
  they have the same members in any order. \<^verbatim>\<open>Dict[str, int] == dict[str, int]\<close> is
  false.
\<close>

fun py_eq :: "anno \<Rightarrow> anno \<Rightarrow> bool"
  and py_eq_args :: "anno list \<Rightarrow> anno list \<Rightarrow> bool" where
  "py_eq (Cls a) y = (case y of Cls b \<Rightarrow> a = b | _ \<Rightarrow> False)"
| "py_eq (TypedDictCls a) y = (case y of TypedDictCls b \<Rightarrow> a = b | _ \<Rightarrow> False)"
| "py_eq (ModelCls a) y = (case y of ModelCls b \<Rightarrow> a = b | _ \<Rightarrow> False)"
| "py_eq (Generic c as) y =
     (case y of
        Generic d bs \<Rightarrow>
          c = d \<and>
          (if c = ''Union''
           then list_all (\<lambda>a. list_ex (\<lambda>b. py_eq a b) bs) as \<and>
                list_all (\<lambda>b. list_ex (\<lambda>a. py_eq a b) as) bs
           else py_eq_args as bs)
      | _ \<Rightarrow> False)"
| "py_eq (TypingAlias c as) y =
     (case y of TypingAlias d bs \<Rightarrow> c = d \<and> py_eq_args as bs | _ \<Rightarrow> False)"
| "py_eq (Annotated t ms) y =
     (case y of Annotated u ns \<Rightarrow> py_eq t u \<and> py_eq_args ms ns | _ \<Rightarrow> False)"
| "py_eq (NotRequired t) y = (case y of NotRequired u \<Rightarrow> py_eq t u | _ \<Rightarrow> False)"
| "py_eq (AsRef a) y = (case y of AsRef b \<Rightarrow> a = b | _ \<Rightarrow> False)"
| "py_eq (FieldInfo d r) y = (case y of FieldInfo e q \<Rightarrow> d = e \<and> r = q | _ \<Rightarrow> False)"
| "py_eq_args [] bs = (bs = [])"
| "py_eq_args (a # as) bs = (case bs of [] \<Rightarrow> False | b # bs' \<Rightarrow> py_eq a b \<and> py_eq_args as bs')"

text \<open>
  Subscription. \<^verbatim>\<open>Union[...]\<close> flattens nested unions, drops repeated members keeping
  the first, and returns the member itself when one is left; \<^verbatim>\<open>Optional[t]\<close> is
  \<^verbatim>\<open>Union[t, None]\<close>. \<^verbatim>\<open>Annotated[t, ...]\<close> over an annotated \<open>t\<close> appends to its
  metadata. \<^verbatim>\<open>NotRequired[...]\<close> takes one type and raises \<^verbatim>\<open>TypeError\<close> on a tuple,
  which is what \<^verbatim>\<open>change_sub_typed_dicts_to_basemodels\<close> passes.
\<close>

fun deduplicate :: "anno list \<Rightarrow> anno list" where
  "deduplicate [] = []"
| "deduplicate (x # xs) = x # deduplicate (filter (\<lambda>y. \<not> py_eq x y) xs)"


definition mk_union :: "anno list \<Rightarrow> anno" where
  "mk_union params =
     (case deduplicate
             (concat (map (\<lambda>p. case p of
                                   Generic c args \<Rightarrow> if c = ''Union'' then args else [p]
                                 | _ \<Rightarrow> [p]) params)) of
        [t] \<Rightarrow> t
      | ts \<Rightarrow> Generic ''Union'' ts)"

definition Optional :: "anno \<Rightarrow> anno" where
  "Optional t = mk_union [t, Cls ''NoneType'']"

definition mk_annotated :: "anno \<Rightarrow> anno list \<Rightarrow> anno" where
  "mk_annotated t metadata =
     (case t of
        Annotated u ms \<Rightarrow> Annotated u (ms @ metadata)
      | _ \<Rightarrow> Annotated t metadata)"

definition subscript :: "origin \<Rightarrow> anno list \<Rightarrow> py_error + anno" where
  "subscript orig params =
     (case orig of
        OAnnotated \<Rightarrow>
          (case params of
             t # m # ms \<Rightarrow> Inr (mk_annotated t (m # ms))
           | _ \<Rightarrow> Inl TypeError)
      | ONotRequired \<Rightarrow> Inl TypeError
      | OClass c \<Rightarrow> if c = ''Union'' then Inr (mk_union params) else Inr (Generic c params))"

fun is_AsRef :: "anno \<Rightarrow> bool" where
  "is_AsRef (AsRef _) = True"
| "is_AsRef _ = False"

fun is_FieldInfo :: "anno \<Rightarrow> bool" where
  "is_FieldInfo (FieldInfo _ _) = True"
| "is_FieldInfo _ = False"

text \<open>
  Modelled from the spec: \<^verbatim>\<open>ALLOWED_ANNOTATION_ELEMENTS\<close>, imported from
  \<^verbatim>\<open>event_model.documents.generate.type_wrapper\<close>. The specification calls its members
  the known metadata element kinds of an annotation: the reference tag and the metadata
  object.
\<close>

definition ALLOWED_ANNOTATION_ELEMENTS :: "anno \<Rightarrow> bool" where
  "ALLOWED_ANNOTATION_ELEMENTS x = (is_AsRef x \<or> is_FieldInfo x)"

fun regex :: "anno \<Rightarrow> string option" where
  "regex (FieldInfo _ r) = r"
| "regex _ = None"

fun set_regex :: "string option \<Rightarrow> anno \<Rightarrow> anno" where
  "set_regex r (FieldInfo d _) = FieldInfo d r"
| "set_regex r a = a"

text \<open>\<^verbatim>\<open>Field()\<close>: a metadata object with nothing set.\<close>

definition Field' :: anno where
  "Field' = FieldInfo None None"

section \<open>Classes and the state of the process\<close>

text \<open>
  A \<^verbatim>\<open>TypedDict\<close> class has its \<^verbatim>\<open>__annotations__\<close> (a dictionary, in field order), its
  docstring, and the names under which \<^verbatim>\<open>getattr\<close> finds an attribute on the class. A
  model class records what \<^verbatim>\<open>create_model\<close> was given: its name and, per field, the
  annotation and the default (\<^verbatim>\<open>...\<close>, \<^verbatim>\<open>None\<close> or a class attribute).

  The state holds the \<^verbatim>\<open>TypedDict\<close> classes by name, the model classes in creation
  order, the dictionary that is the default value of the parameter
  \<^verbatim>\<open>new_basemodel_classes\<close> of \<^verbatim>\<open>parse_typeddict_to_schema\<close> (Python evaluates a
  default once, when the \<^verbatim>\<open>def\<close> statement runs, and every call that omits the argument
  receives that same object), the hand-authored fragments \<^verbatim>\<open>extra_schema\<close> by class name,
  and the files written. Inside a run the cache dictionary in use is passed along and
  returned updated.
\<close>

datatype default_value = Ellipsis | PyNone | ClassAttribute string

record typed_dict =
  td_annotations :: "(string \<times> anno) list"
  td_doc :: "string option"
  td_attributes :: "string list"

record model =
  m_name :: string
  m_annotations :: "(string \<times> anno) list"
  m_defaults :: "(string \<times> default_value) list"
  m_doc :: "string option"

type_synonym cache = "(string \<times> nat) list"

record state =
  typed_dicts :: "(string \<times> typed_dict) list"
  models :: "model list"
  default_new_basemodel_classes :: cache
  extra_schema :: "(string \<times> dict) list"
  files :: "((string \<times> string) \<times> dict) list"

text \<open>
  \<^verbatim>\<open>create_model(name, __config__=Config, **fields)\<close> is pydantic's. It makes a new
  class that records the name and the fields. pydantic refuses a field whose name is
  the name of an attribute of its class \<^verbatim>\<open>BaseModel\<close>, with \<^verbatim>\<open>NameError\<close> (the field
  name shadows a \<^verbatim>\<open>BaseModel\<close> attribute); a name that begins with an underscore is
  not checked. \<open>BaseModel_attributes\<close> lists the attributes of \<^verbatim>\<open>BaseModel\<close> whose
  names do not begin with an underscore, in the version of pydantic that has
  \<^verbatim>\<open>__root__\<close> and \<^verbatim>\<open>schema\<close>. Apart from this check the call is taken to succeed.
\<close>

definition BaseModel_attributes :: "string list" where
  "BaseModel_attributes =
     [''Config'', ''dict'', ''json'', ''parse_obj'', ''parse_raw'', ''parse_file'',
      ''from_orm'', ''construct'', ''copy'', ''schema'', ''schema_json'', ''validate'',
      ''update_forward_refs'']"

definition create_model ::
  "string \<Rightarrow> (string \<times> anno \<times> default_value) list \<Rightarrow> state \<Rightarrow> py_error + nat \<times> state" where
  "create_model name field_definitions s =
     (if list_ex (\<lambda>(f, t, d). f \<in> set BaseModel_attributes) field_definitions
      then Inl NameError
      else Inr (length (models s),
                s\<lparr>models := models s @
                     [\<lparr>m_name = name,
                       m_annotations = map (\<lambda>(f, t, d). (f, t)) field_definitions,
                       m_defaults = map (\<lambda>(f, t, d). (f, d)) field_definitions,
                       m_doc = None\<rparr>]\<rparr>))"

section \<open>The annotation normaliser\<close>

text \<open>
  \<^verbatim>\<open>
  def field_is_not_required(field_type, remove_origin_if_NotRequired=False):
      is_not_required = get_origin(field_type) == NotRequired
      if is_not_required and remove_origin_if_NotRequired:
          args = get_args(field_type)
          assert len(args) == 1
          field_type = args[0]
      return field_type, is_not_required
  \<close>
\<close>

definition field_is_not_required :: "anno \<Rightarrow> bool \<Rightarrow> py_error + (anno \<times> bool)" where
  "field_is_not_required field_type remove_origin_if_NotRequired =
     (let is_not_required = (get_origin field_type = Some ONotRequired) in
      if is_not_required \<and> remove_origin_if_NotRequired then
        (case get_args field_type of
           [t] \<Rightarrow> Inr (t, is_not_required)
         | _ \<Rightarrow> Inl AssertionError)
      else Inr (field_type, is_not_required))"

text \<open>
  \<^verbatim>\<open>
  def get_annotation_contents(field_type):
      args = get_args(field_type)
      as_ref = None
      field_info = Field()
      if args:
          for arg in args:
              if isinstance(arg, AsRef): as_ref = arg
              elif isinstance(arg, FieldInfo): field_info = arg
      return as_ref, field_info
  \<close>
\<close>

definition get_annotation_contents :: "anno \<Rightarrow> anno option \<times> anno" where
  "get_annotation_contents field_type =
     fold (\<lambda>arg (as_ref, field_info).
             if is_AsRef arg then (Some arg, field_info)
             else if is_FieldInfo arg then (as_ref, arg)
             else (as_ref, field_info))
          (get_args field_type) (None, Field')"

text \<open>
  \<^verbatim>\<open>
  def parse_AsRef(field_type, field_info, as_ref, new_basemodel_classes):
      ref_field_info = Field()
      if field_info.regex:
          ref_field_info.regex = field_info.regex
      ref_field_type = Annotated[field_type, ref_field_info]
      if as_ref.ref_name not in new_basemodel_classes:
          field_type = create_model(as_ref.ref_name, __config__=Config,
                                    __root__=(ref_field_type, None))
          new_basemodel_classes[as_ref.ref_name] = field_type
      else:
          generated_basemodel_type = new_basemodel_classes[
              as_ref.ref_name].__annotations__["__root__"]
          assert get_args(ref_field_type)[0] == get_args(generated_basemodel_type)[0]
          field_type = new_basemodel_classes[as_ref.ref_name]
      return field_type
  \<close>
\<close>

fun ref_name :: "anno \<Rightarrow> string" where
  "ref_name (AsRef n) = n"
| "ref_name _ = []"

definition truthy :: "string option \<Rightarrow> bool" where
  "truthy r = (case r of None \<Rightarrow> False | Some x \<Rightarrow> x \<noteq> [])"

definition parse_AsRef ::
  "anno \<Rightarrow> anno \<Rightarrow> anno \<Rightarrow> cache \<Rightarrow> state \<Rightarrow> py_error + (anno \<times> cache \<times> state)" where
  "parse_AsRef field_type field_info as_ref new_basemodel_classes s =
     (let ref_field_info = (if truthy (regex field_info)
                            then set_regex (regex field_info) Field' else Field');
          ref_field_type = mk_annotated field_type [ref_field_info]
      in case map_of new_basemodel_classes (ref_name as_ref) of
           None \<Rightarrow>
             (case create_model (ref_name as_ref)
                     [(''__root__'', ref_field_type, PyNone)] s of
                Inl e \<Rightarrow> Inl e
              | Inr (m, s') \<Rightarrow>
                  Inr (ModelCls m,
                       AList.update (ref_name as_ref) m new_basemodel_classes, s'))
         | Some m \<Rightarrow>
             if m < length (models s) then
               (case map_of (m_annotations (models s ! m)) ''__root__'' of
                  None \<Rightarrow> Inl KeyError
                | Some generated_basemodel_type \<Rightarrow>
                    (case (get_args ref_field_type, get_args generated_basemodel_type) of
                       (a # _, b # _) \<Rightarrow>
                         if py_eq a b then Inr (ModelCls m, new_basemodel_classes, s)
                         else Inl AssertionError
                     | _ \<Rightarrow> Inl (IndexError)))
             else Inl NoSuchObject)"

fun is_TypedDictMeta :: "anno \<Rightarrow> bool" where
  "is_TypedDictMeta (TypedDictCls _) = True"
| "is_TypedDictMeta _ = False"

fun name_of :: "anno \<Rightarrow> string" where
  "name_of (TypedDictCls n) = n"
| "name_of (Cls n) = n"
| "name_of _ = []"

definition getattr_default :: "typed_dict \<Rightarrow> string \<Rightarrow> default_value" where
  "getattr_default td name =
     (if name \<in> set (td_attributes td) then ClassAttribute name else Ellipsis)"

text \<open>
  The recursive part: \<^verbatim>\<open>change_sub_typed_dicts_to_basemodels\<close>,
  \<^verbatim>\<open>parse_typeddict_to_schema\<close> called with \<^verbatim>\<open>return_basemodel=True\<close> (here
  \<open>typeddict_to_basemodel\<close>: lines 474 to 490 of the function), \<^verbatim>\<open>format_all_annotations\<close>,
  \<^verbatim>\<open>field_parser\<close> and \<^verbatim>\<open>get_field_type\<close> call one another. \<open>change_args\<close> is the
  generator expression over the arguments and \<open>parse_fields\<close> the loop over the fields.

  A declaration that nests itself makes the Python recursion run until the interpreter
  raises \<^verbatim>\<open>RecursionError\<close>. The first argument is the call depth still available:
  a call made by a function that has depth \<open>Suc n\<close> gets depth \<open>n\<close>, and a call at
  depth \<open>0\<close> raises.
  \<^verbatim>\<open>
  def change_sub_typed_dicts_to_basemodels(field_type, new_basemodel_classes):
      if isinstance(field_type, _TypedDictMeta):
          if field_type.__name__ not in new_basemodel_classes:
              field_type = parse_typeddict_to_schema(
                  field_type, return_basemodel=True,
                  new_basemodel_classes=new_basemodel_classes)
              new_basemodel_classes[field_type.__name__] = field_type
          else:
              field_type = new_basemodel_classes[field_type.__name__]
      else:
          origin = get_origin(field_type)
          args = get_args(field_type)
          if origin and args:
              field_type = origin[tuple(
                  change_sub_typed_dicts_to_basemodels(arg, new_basemodel_classes)
                  for arg in args)]
      return field_type

  def format_all_annotations(typed_dict, new_basemodel_classes={}):
      new_annotations = {}
      for field_name, field_type in typed_dict.__annotations__.items():
          new_annotations[field_name] = field_parser(
              field_name, field_type, new_basemodel_classes)
      typed_dict.__annotations__ = new_annotations
      return typed_dict

  def field_parser(field_name, field_type, new_basemodel_classes):
      field_type, is_not_required = field_is_not_required(
          field_type, remove_origin_if_NotRequired=True)
      as_ref, field_info = get_annotation_contents(field_type)
      field_type = get_field_type(field_name, field_type, new_basemodel_classes)
      if as_ref:
          field_type = parse_AsRef(field_type, field_info, as_ref, new_basemodel_classes)
          field_info.regex = None
      if is_not_required:
          field_type = Optional[field_type]
      return Annotated[field_type, field_info]

  def get_field_type(field_name, field_type, new_basemodel_classes):
      args = get_args(field_type)
      if args:
          field_type = [x for x in args
                        if True not in [isinstance(x, y)
                                        for y in ALLOWED_ANNOTATION_ELEMENTS]]
          assert len(field_type) == 1
          field_type = field_type[0]
      field_type = change_sub_typed_dicts_to_basemodels(field_type, new_basemodel_classes)
      return field_type
  \<close>
  and, in \<^verbatim>\<open>parse_typeddict_to_schema\<close>,
  \<^verbatim>\<open>
      typed_dict = format_all_annotations(
          typed_dict, new_basemodel_classes=new_basemodel_classes)
      for name, field in typed_dict.__annotations__.items():
          default_value = getattr(typed_dict, name, ...)
          annotations[name] = (field, default_value)
      model = create_model(typed_dict.__name__, __config__=Config, **annotations)
      model.__doc__ = typed_dict.__doc__
      if return_basemodel:
          return model
  \<close>
\<close>

function (sequential) change_sub_typed_dicts_to_basemodels ::
      "nat \<Rightarrow> anno \<Rightarrow> cache \<Rightarrow> state \<Rightarrow> py_error + (anno \<times> cache \<times> state)"
  and change_args ::
      "nat \<Rightarrow> anno list \<Rightarrow> cache \<Rightarrow> state \<Rightarrow> py_error + (anno list \<times> cache \<times> state)"
  and typeddict_to_basemodel ::
      "nat \<Rightarrow> string \<Rightarrow> cache \<Rightarrow> state \<Rightarrow> py_error + (nat \<times> cache \<times> state)"
  and format_all_annotations ::
      "nat \<Rightarrow> string \<Rightarrow> cache \<Rightarrow> state \<Rightarrow> py_error + (cache \<times> state)"
  and parse_fields ::
      "nat \<Rightarrow> (string \<times> anno) list \<Rightarrow> (string \<times> anno) list \<Rightarrow> cache \<Rightarrow> state
         \<Rightarrow> py_error + ((string \<times> anno) list \<times> cache \<times> state)"
  and field_parser ::
      "nat \<Rightarrow> string \<Rightarrow> anno \<Rightarrow> cache \<Rightarrow> state \<Rightarrow> py_error + (anno \<times> cache \<times> state)"
  and get_field_type ::
      "nat \<Rightarrow> string \<Rightarrow> anno \<Rightarrow> cache \<Rightarrow> state \<Rightarrow> py_error + (anno \<times> cache \<times> state)"
  where
  "change_sub_typed_dicts_to_basemodels 0 field_type new_basemodel_classes s = Inl RecursionError"
| "change_sub_typed_dicts_to_basemodels (Suc n) field_type new_basemodel_classes s =
     (if is_TypedDictMeta field_type then
        (case map_of new_basemodel_classes (name_of field_type) of
           None \<Rightarrow>
             (case typeddict_to_basemodel n (name_of field_type) new_basemodel_classes s of
                Inl e \<Rightarrow> Inl e
              | Inr (m, c', s') \<Rightarrow>
                  Inr (ModelCls m, AList.update (m_name (models s' ! m)) m c', s'))
         | Some m \<Rightarrow> Inr (ModelCls m, new_basemodel_classes, s))
      else
        (case get_origin field_type of
           None \<Rightarrow> Inr (field_type, new_basemodel_classes, s)
         | Some orig \<Rightarrow>
             if get_args field_type = [] then Inr (field_type, new_basemodel_classes, s)
             else
               (case change_args n (get_args field_type) new_basemodel_classes s of
                  Inl e \<Rightarrow> Inl e
                | Inr (args', c', s') \<Rightarrow>
                    (case subscript orig args' of
                       Inl e \<Rightarrow> Inl e
                     | Inr t \<Rightarrow> Inr (t, c', s')))))"
| "change_args n [] new_basemodel_classes s = Inr ([], new_basemodel_classes, s)"
| "change_args n (arg # args) new_basemodel_classes s =
     (case change_sub_typed_dicts_to_basemodels n arg new_basemodel_classes s of
        Inl e \<Rightarrow> Inl e
      | Inr (arg', c', s') \<Rightarrow>
          (case change_args n args c' s' of
             Inl e \<Rightarrow> Inl e
           | Inr (args', c'', s'') \<Rightarrow> Inr (arg' # args', c'', s'')))"
| "typeddict_to_basemodel 0 typed_dict new_basemodel_classes s = Inl RecursionError"
| "typeddict_to_basemodel (Suc n) typed_dict new_basemodel_classes s =
     (case format_all_annotations n typed_dict new_basemodel_classes s of
        Inl e \<Rightarrow> Inl e
      | Inr (c', s') \<Rightarrow>
          (case map_of (typed_dicts s') typed_dict of
             None \<Rightarrow> Inl NoSuchObject
           | Some td \<Rightarrow>
               (let annotations = map (\<lambda>(name, field). (name, field, getattr_default td name))
                                      (td_annotations td)
                in case create_model typed_dict annotations s' of
                     Inl e \<Rightarrow> Inl e
                   | Inr (m, s'') \<Rightarrow>
                       Inr (m, c',
                            s''\<lparr>models :=
                                  (models s'')[m := (models s'' ! m)\<lparr>m_doc := td_doc td\<rparr>]\<rparr>))))"
| "format_all_annotations 0 typed_dict new_basemodel_classes s = Inl RecursionError"
| "format_all_annotations (Suc n) typed_dict new_basemodel_classes s =
     (case map_of (typed_dicts s) typed_dict of
        None \<Rightarrow> Inl NoSuchObject
      | Some td \<Rightarrow>
          (case parse_fields n (td_annotations td) [] new_basemodel_classes s of
             Inl e \<Rightarrow> Inl e
           | Inr (new_annotations, c', s') \<Rightarrow>
               (case map_of (typed_dicts s') typed_dict of
                  None \<Rightarrow> Inl NoSuchObject
                | Some td' \<Rightarrow>
                    Inr (c', s'\<lparr>typed_dicts :=
                                 AList.update typed_dict (td'\<lparr>td_annotations := new_annotations\<rparr>)
                                   (typed_dicts s')\<rparr>))))"
| "parse_fields n [] new_annotations new_basemodel_classes s =
     Inr (new_annotations, new_basemodel_classes, s)"
| "parse_fields n ((field_name, field_type) # rest) new_annotations new_basemodel_classes s =
     (case field_parser n field_name field_type new_basemodel_classes s of
        Inl e \<Rightarrow> Inl e
      | Inr (t, c', s') \<Rightarrow>
          parse_fields n rest (AList.update field_name t new_annotations) c' s')"
| "field_parser 0 field_name field_type new_basemodel_classes s = Inl RecursionError"
| "field_parser (Suc n) field_name field_type new_basemodel_classes s =
     (case field_is_not_required field_type True of
        Inl e \<Rightarrow> Inl e
      | Inr (field_type1, is_not_required) \<Rightarrow>
          (let (as_ref, field_info) = get_annotation_contents field_type1 in
           case get_field_type n field_name field_type1 new_basemodel_classes s of
             Inl e \<Rightarrow> Inl e
           | Inr (field_type2, c', s') \<Rightarrow>
               (case (case as_ref of
                        None \<Rightarrow> Inr (field_type2, field_info, c', s')
                      | Some r \<Rightarrow>
                          (case parse_AsRef field_type2 field_info r c' s' of
                             Inl e \<Rightarrow> Inl e
                           | Inr (w, c'', s'') \<Rightarrow> Inr (w, set_regex None field_info, c'', s''))) of
                  Inl e \<Rightarrow> Inl e
                | Inr (field_type3, field_info', c'', s'') \<Rightarrow>
                    Inr (mk_annotated
                           (if is_not_required then Optional field_type3 else field_type3)
                           [field_info'], c'', s''))))"
| "get_field_type 0 field_name field_type new_basemodel_classes s = Inl RecursionError"
| "get_field_type (Suc n) field_name field_type new_basemodel_classes s =
     (if get_args field_type \<noteq> [] then
        (case filter (\<lambda>x. \<not> ALLOWED_ANNOTATION_ELEMENTS x) (get_args field_type) of
           [t] \<Rightarrow> change_sub_typed_dicts_to_basemodels n t new_basemodel_classes s
         | _ \<Rightarrow> Inl AssertionError)
      else change_sub_typed_dicts_to_basemodels n field_type new_basemodel_classes s)"

  by pat_completeness auto
termination
  by (relation "inv_image (less_than <*lex*> less_than)
        (\<lambda>x. case x of
           Inl (Inl (n, _)) \<Rightarrow> (n, 0)
         | Inl (Inr (Inl (n, args, _))) \<Rightarrow> (n, Suc (length args))
         | Inl (Inr (Inr (n, _))) \<Rightarrow> (n, 0)
         | Inr (Inl (Inl (n, _))) \<Rightarrow> (n, 0)
         | Inr (Inl (Inr (n, fs, _))) \<Rightarrow> (n, Suc (length fs))
         | Inr (Inr (Inl (n, _))) \<Rightarrow> (n, 0)
         | Inr (Inr (Inr (n, _))) \<Rightarrow> (n, 0))")
     auto

section \<open>Rendering\<close>

text \<open>
  \<^verbatim>\<open>
  def strip_newline_literal(schema):
      for key in schema:
          if isinstance(schema[key], dict):
              schema[key] = strip_newline_literal(schema[key])
          elif key == "description":
              schema[key] = schema[key].replace("\n", " ")
      return schema
  \<close>
  As in \<open>sort_jsonschema\<close>, the value under a key is read from the dictionary as it
  was on entry. Only a string has \<^verbatim>\<open>replace\<close>.
\<close>

definition replace_newlines :: "string \<Rightarrow> string" where
  "replace_newlines str = map (\<lambda>c. if c = CHR 0x0A then CHR '' '' else c) str"

function strip_newline_literal :: "dict \<Rightarrow> py_error + dict" where
  "strip_newline_literal schema =
     fold (\<lambda>key acc.
        case acc of
          Inl e \<Rightarrow> Inl e
        | Inr schema' \<Rightarrow>
            (case map_of schema key of
               None \<Rightarrow> Inr schema'
             | Some v \<Rightarrow>
                 if isinstance v DictC then
                   (case strip_newline_literal (the_dict v) of
                      Inl e \<Rightarrow> Inl e
                    | Inr d \<Rightarrow> Inr (AList.update key (JDict d) schema'))
                 else if key = ''description'' then
                   (case v of
                      JStr str \<Rightarrow> Inr (AList.update key (JStr (replace_newlines str)) schema')
                    | _ \<Rightarrow> Inl AttributeError)
                 else Inr schema'))
       (keys schema) (Inr schema)"
  by pat_completeness auto
termination
proof (relation "measure (size_list (size_prod (\<lambda>_. 0) size))")
  show "wf (measure (size_list (size_prod (\<lambda>_. 0) size) :: dict \<Rightarrow> nat))"
    by simp
next
  fix schema :: dict and key :: string and v :: json
  assume v: "map_of schema key = Some v" and d: "isinstance v DictC"
  have "size w < Suc (size_list (size_prod (\<lambda>_. 0) size) al)"
    if "map_of al key = Some w" for al :: dict and w
    using that by (induction al) (auto split: if_splits)
  from this [OF v] d
  show "(the_dict v, schema) \<in> measure (size_list (size_prod (\<lambda>_. 0) size))"
    by (cases v) (auto simp: isinstance_def issubclass_def)
qed

declare strip_newline_literal.simps [simp del]

text \<open>
  \<^verbatim>\<open>
  def alias_generator(string_to_be_aliased):
      return re.sub(r"(?<!^)(?=[A-Z])", "_", string_to_be_aliased).lower()
  \<close>
  An underscore goes before every character that is not the first and that the class
  \<^verbatim>\<open>[A-Z]\<close> matches (\<open>is_upper\<close>); then the string is lowered. A character of the
  model is a code point below 256. On these, \<^verbatim>\<open>str.lower\<close> changes the letters
  \<^verbatim>\<open>A\<close> to \<^verbatim>\<open>Z\<close> and the capital letters of Latin-1, which are the code points
  \<^verbatim>\<open>0xC0\<close> to \<^verbatim>\<open>0xDE\<close> without the multiplication sign \<^verbatim>\<open>0xD7\<close>, each to the
  code point 32 places on, and leaves every other character as it is.
\<close>

definition is_upper :: "char \<Rightarrow> bool" where
  "is_upper c = (CHR ''A'' \<le> c \<and> c \<le> CHR ''Z'')"

definition lower :: "char \<Rightarrow> char" where
  "lower c =
     (if is_upper c \<or> (CHR 0xC0 \<le> c \<and> c \<le> CHR 0xDE \<and> c \<noteq> CHR 0xD7)
      then char_of (of_char c + (32 :: nat)) else c)"

definition alias_generator :: "string \<Rightarrow> string" where
  "alias_generator string_to_be_aliased =
     map lower
       (case string_to_be_aliased of
          [] \<Rightarrow> []
        | c # cs \<Rightarrow> c # concat (map (\<lambda>d. if is_upper d then [CHR ''_'', d] else [d]) cs))"

section \<open>\<^verbatim>\<open>parse_typeddict_to_schema\<close> and \<^verbatim>\<open>generate_all_schema\<close>\<close>

text \<open>
  \<^verbatim>\<open>
  def parse_typeddict_to_schema(typed_dict, out_dir=None, return_basemodel=False,
                                new_basemodel_classes={}, sort=True):
      ...                                  # lines 474 to 490, above
      model.__name__ = Config.alias_generator(typed_dict.__name__).lower()
      model_schema = model.schema(by_alias=True)
      model_schema = strip_newline_literal(model_schema)
      if typed_dict in extra_schema:
          model_schema = merge_dicts(extra_schema[typed_dict], model_schema)
      if sort:
          model_schema = sort_jsonschema(model_schema)
      if out_dir:
          with open(out_dir / f'{model_schema["title"]}.json', "w+") as f:
              json.dump(model_schema, f, indent=3)
      return model_schema
  \<close>
  \<^verbatim>\<open>model.schema\<close> is pydantic's: it is the parameter \<open>schema\<close>, a function of the model
  classes and the model rendered. The argument \<open>new_basemodel_classes\<close> is \<open>None\<close> for a
  call that omits it, which then works on the default dictionary held in the state, and
  \<open>Some c\<close> for a call that passes its own dictionary \<open>c\<close>; the dictionary as the
  call leaves it is part of the result. The output directory is a \<^verbatim>\<open>Path\<close>, a string
  or \<^verbatim>\<open>None\<close>: \<^verbatim>\<open>if out_dir\<close> holds for a path and for a string that is not empty,
  and \<^verbatim>\<open>/\<close> is defined on a path only. A file is the pair of its directory and its
  name, and its content is the dictionary that \<^verbatim>\<open>json.dump\<close> serialises.
\<close>

datatype out_dir = PathObj string | StrObj string | NoneObj

datatype result = BaseModelResult nat | SchemaResult dict

type_synonym renderer = "model list \<Rightarrow> nat \<Rightarrow> py_error + dict"

definition write_schema :: "out_dir \<Rightarrow> dict \<Rightarrow> state \<Rightarrow> py_error + state" where
  "write_schema out_directory model_schema s =
     (case out_directory of
        NoneObj \<Rightarrow> Inr s
      | StrObj d \<Rightarrow>
          if d = [] then Inr s
          else (case map_of model_schema ''title'' of
                  None \<Rightarrow> Inl KeyError
                | Some t \<Rightarrow> Inl TypeError)
      | PathObj d \<Rightarrow>
          (case map_of model_schema ''title'' of
             None \<Rightarrow> Inl KeyError
           | Some (JStr title) \<Rightarrow>
               Inr (s\<lparr>files := AList.update (d, title @ ''.json'') model_schema (files s)\<rparr>)
           | Some _ \<Rightarrow> Inl Unmodelled))"

text \<open>
  Three steps of the function: the dictionary that the call worked on stays as the call
  left it (for a call that omitted the argument it is the default dictionary of the
  function); \<^verbatim>\<open>model.__name__ = ...\<close>; and the merge with the hand-authored fragment
  of the class, when there is one.
\<close>

definition keep_cache :: "cache option \<Rightarrow> cache \<Rightarrow> state \<Rightarrow> state" where
  "keep_cache new_basemodel_classes c s =
     (case new_basemodel_classes of
        None \<Rightarrow> s\<lparr>default_new_basemodel_classes := c\<rparr>
      | Some _ \<Rightarrow> s)"

definition set_name :: "nat \<Rightarrow> string \<Rightarrow> state \<Rightarrow> state" where
  "set_name m name s = s\<lparr>models := (models s)[m := (models s ! m)\<lparr>m_name := name\<rparr>]\<rparr>"

definition add_extra_schema :: "string \<Rightarrow> dict \<Rightarrow> state \<Rightarrow> dict" where
  "add_extra_schema typed_dict model_schema s =
     (case map_of (extra_schema s) typed_dict of
        None \<Rightarrow> model_schema
      | Some fragment \<Rightarrow> merge_dicts fragment model_schema)"

definition parse_typeddict_to_schema ::
  "renderer \<Rightarrow> nat \<Rightarrow> string \<Rightarrow> out_dir \<Rightarrow> bool \<Rightarrow> cache option \<Rightarrow> bool \<Rightarrow> state
     \<Rightarrow> py_error + (result \<times> cache \<times> state)" where
  "parse_typeddict_to_schema schema depth typed_dict out_directory return_basemodel
       new_basemodel_classes sort_properties s =
     (case typeddict_to_basemodel depth typed_dict
             (case new_basemodel_classes of
                None \<Rightarrow> default_new_basemodel_classes s
              | Some c \<Rightarrow> c) s of
        Inl e \<Rightarrow> Inl e
      | Inr (m, c, s1) \<Rightarrow>
          if return_basemodel
          then Inr (BaseModelResult m, c, keep_cache new_basemodel_classes c s1)
          else
            (case schema
                    (models (set_name m (map lower (alias_generator typed_dict))
                               (keep_cache new_basemodel_classes c s1))) m of
               Inl e \<Rightarrow> Inl e
             | Inr model_schema \<Rightarrow>
                 (case strip_newline_literal model_schema of
                    Inl e \<Rightarrow> Inl e
                  | Inr model_schema1 \<Rightarrow>
                      (case (if sort_properties
                             then sort_jsonschema
                                    (add_extra_schema typed_dict model_schema1 s1)
                             else Inr (add_extra_schema typed_dict model_schema1 s1)) of
                         Inl e \<Rightarrow> Inl e
                       | Inr model_schema2 \<Rightarrow>
                           (case write_schema out_directory model_schema2
                                   (set_name m (map lower (alias_generator typed_dict))
                                      (keep_cache new_basemodel_classes c s1)) of
                              Inl e \<Rightarrow> Inl e
                            | Inr s2 \<Rightarrow> Inr (SchemaResult model_schema2, c, s2))))))"

text \<open>
  \<^verbatim>\<open>
  def generate_all_schema(schema_out_dir=SCHEMA_OUT_DIR):
      parse_typeddict_to_schema(DatumPage, out_dir=schema_out_dir)
      parse_typeddict_to_schema(Datum, out_dir=schema_out_dir)
      ...
      parse_typeddict_to_schema(StreamResource, out_dir=schema_out_dir)
  \<close>
  Ten calls, each without \<^verbatim>\<open>new_basemodel_classes\<close>; the first exception ends the run.
\<close>

definition documents :: "string list" where
  "documents =
     [''DatumPage'', ''Datum'', ''EventDescriptor'', ''EventPage'', ''Event'', ''Resource'',
      ''RunStart'', ''RunStop'', ''StreamDatum'', ''StreamResource'']"

definition generate_all_schema :: "renderer \<Rightarrow> nat \<Rightarrow> out_dir \<Rightarrow> state \<Rightarrow> py_error + state" where
  "generate_all_schema schema depth schema_out_dir s =
     fold (\<lambda>typed_dict acc.
             case acc of
               Inl e \<Rightarrow> Inl e
             | Inr s' \<Rightarrow>
                 (case parse_typeddict_to_schema schema depth typed_dict schema_out_dir
                         False None True s' of
                    Inl e \<Rightarrow> Inl e
                  | Inr (r, c, s'') \<Rightarrow> Inr s''))
          documents (Inr s)"

section \<open>The command line\<close>

text \<open>
  \<^verbatim>\<open>
  SCHEMA_OUT_DIR = Path("event_model") / SCHEMA_PATH

  if __name__ == "__main__":
      import argparse
      parser = argparse.ArgumentParser()
      parser.add_argument("--schema_out_directory", default=SCHEMA_OUT_DIR, nargs="?")
      args = parser.parse_args()
      generate_all_schema(schema_out_dir=args.schema_out_directory)
  \<close>
  \<^verbatim>\<open>SCHEMA_PATH\<close> is imported from the package and is a parameter here. A parser is the
  list of the arguments it defines. \<^verbatim>\<open>ArgumentParser()\<close> defines the help flags.
  \<^verbatim>\<open>add_argument\<close> makes a positional argument when it is given one name that does not
  start with \<^verbatim>\<open>-\<close>, and an optional flag otherwise; every name of a flag must start with
  \<^verbatim>\<open>-\<close>, and its destination is its first long name without the leading dashes.
  \<^verbatim>\<open>parse_args\<close> starts from the defaults of the arguments, which are its result when
  the command line is empty.
\<close>

definition SCHEMA_OUT_DIR :: "string \<Rightarrow> out_dir" where
  "SCHEMA_OUT_DIR SCHEMA_PATH = PathObj (''event_model/'' @ SCHEMA_PATH)"

datatype nargs = NoValue | AtMostOne

datatype kind = Positional | Flag

record argument =
  arg_kind :: kind
  option_strings :: "string list"
  dest :: string
  arg_default :: out_dir
  arg_nargs :: nargs

datatype cli_error = ValueError

definition starts_with_dash :: "string \<Rightarrow> bool" where
  "starts_with_dash name = (case name of [] \<Rightarrow> False | c # cs \<Rightarrow> c = CHR ''-'')"

definition ArgumentParser :: "argument list" where
  "ArgumentParser =
     [\<lparr>arg_kind = Flag, option_strings = [''-h'', ''--help''], dest = ''help'',
       arg_default = NoneObj, arg_nargs = NoValue\<rparr>]"

definition add_argument ::
  "string list \<Rightarrow> out_dir \<Rightarrow> nargs \<Rightarrow> argument list \<Rightarrow> cli_error + argument list" where
  "add_argument names default_value n parser =
     (case names of
        [name] \<Rightarrow>
          if \<not> starts_with_dash name then
            Inr (parser @ [\<lparr>arg_kind = Positional, option_strings = [], dest = name,
                              arg_default = default_value, arg_nargs = n\<rparr>])
          else
            Inr (parser @ [\<lparr>arg_kind = Flag, option_strings = [name],
                              dest = dropWhile (\<lambda>c. c = CHR ''-'') name,
                              arg_default = default_value, arg_nargs = n\<rparr>])
      | _ \<Rightarrow>
          if list_all starts_with_dash names then
            Inr (parser @ [\<lparr>arg_kind = Flag, option_strings = names,
                              dest = dropWhile (\<lambda>c. c = CHR ''-'')
                                       (case filter (\<lambda>s. take 2 s = ''--'') names of
                                          [] \<Rightarrow> hd names
                                        | long # _ \<Rightarrow> long),
                              arg_default = default_value, arg_nargs = n\<rparr>])
          else Inl ValueError)"

definition main_parser :: "string \<Rightarrow> cli_error + argument list" where
  "main_parser SCHEMA_PATH =
     add_argument [''--schema_out_directory''] (SCHEMA_OUT_DIR SCHEMA_PATH) AtMostOne
       ArgumentParser"

definition defaults :: "argument list \<Rightarrow> (string \<times> out_dir) list" where
  "defaults parser = map (\<lambda>a. (dest a, arg_default a)) (filter (\<lambda>a. dest a \<noteq> ''help'') parser)"

section \<open>The declarations in the repository\<close>

text \<open>
  The two document types whose declarations are among the sources, \<^verbatim>\<open>Datum\<close> and
  \<^verbatim>\<open>EventPage\<close>, with \<^verbatim>\<open>DataFrame = Dict[str, List]\<close> and
  \<^verbatim>\<open>DataFrameForFilled = Dict[str, List[Union[bool, str]]]\<close>. A \<^verbatim>\<open>TypedDict\<close> class is
  a subclass of \<^verbatim>\<open>dict\<close>, so \<^verbatim>\<open>getattr\<close> finds the methods of \<^verbatim>\<open>dict\<close> on it.
\<close>

definition dict_methods :: "string list" where
  "dict_methods =
     [''clear'', ''copy'', ''fromkeys'', ''get'', ''items'', ''keys'', ''pop'', ''popitem'',
      ''setdefault'', ''update'', ''values'']"

definition Datum :: typed_dict where
  "Datum =
     \<lparr>td_annotations =
        [(''datum_id'',
            Annotated (Cls ''str'')
              [FieldInfo (Some (''Globally unique identifier for this Datum (akin to '' @
                 [CHR 0x27] @ ''uid'' @ [CHR 0x27] @ '' for other Document types), typically ''
                 @ ''formatted as '' @ [CHR 0x27] @ ''<resource>/<integer>'' @ [CHR 0x27])) None]),
         (''datum_kwargs'',
            Annotated (TypingAlias ''dict'' [Cls ''str'', Cls ''Any''])
              [FieldInfo (Some
                 ''Arguments to pass to the Handler to retrieve one quanta of data'') None]),
         (''resource'',
            Annotated (Cls ''str'')
              [FieldInfo (Some ''The UID of the Resource to which this Datum belongs'') None])],
      td_doc = Some ''Document to reference a quanta of externally-stored data'',
      td_attributes = dict_methods\<rparr>"

definition DataFrame :: anno where
  "DataFrame = TypingAlias ''dict'' [Cls ''str'', TypingAlias ''list'' []]"

definition DataFrameForFilled :: anno where
  "DataFrameForFilled =
     TypingAlias ''dict''
       [Cls ''str'', TypingAlias ''list'' [Generic ''Union'' [Cls ''bool'', Cls ''str'']]]"

definition filled_info :: anno where
  "filled_info =
     FieldInfo (Some (''Mapping each of the keys of externally-stored data to an array '' @
        ''containing the boolean False, indicating that the data has not been loaded, or '' @
        ''to foreign keys (moved here from '' @ [CHR 0x27] @ ''data'' @ [CHR 0x27] @
        '' when the data was loaded)'')) None"

definition EventPage :: typed_dict where
  "EventPage =
     \<lparr>td_annotations =
        [(''filled'', NotRequired (Annotated DataFrameForFilled [filled_info])),
         (''descriptor'',
            Annotated (Cls ''str'')
              [FieldInfo (Some (''The UID of the EventDescriptor to which all of the Events in ''
                 @ ''this page belong'')) None]),
         (''data'',
            Annotated DataFrame [FieldInfo (Some ''The actual measurement data'') None]),
         (''timestamps'',
            Annotated DataFrame
              [FieldInfo (Some ''The timestamps of the individual measurement data'') None]),
         (''seq_num'',
            Annotated (TypingAlias ''list'' [Cls ''int''])
              [FieldInfo (Some (''Array of sequence numbers to identify the location of each ''
                 @ ''Event in the Event stream'')) None]),
         (''time'',
            Annotated (TypingAlias ''list'' [Cls ''float''])
              [FieldInfo (Some (''Array of Event times. This maybe different than the ''
                 @ ''timestamps on each of the data entries'')) None]),
         (''uid'',
            Annotated (TypingAlias ''list'' [Cls ''str''])
              [FieldInfo (Some ''Array of globally unique identifiers for each Event'') None])],
      td_doc = Some ''Page of documents to record a quanta of collected data'',
      td_attributes = dict_methods\<rparr>"

definition at_import :: state where
  "at_import =
     \<lparr>typed_dicts = [(''Datum'', Datum), (''EventPage'', EventPage)],
      models = [],
      default_new_basemodel_classes = [],
      extra_schema = [],
      files = []\<rparr>"

text \<open>Reading a field's annotation off a declaration, and the state a call leaves.\<close>

definition annotation_of :: "state \<Rightarrow> string \<Rightarrow> string \<Rightarrow> anno option" where
  "annotation_of s typed_dict field_name =
     (case map_of (typed_dicts s) typed_dict of
        None \<Rightarrow> None
      | Some td \<Rightarrow> map_of (td_annotations td) field_name)"

text \<open>The type that \<^verbatim>\<open>get_args(Annotated[t, ...])[0]\<close> returns.\<close>

definition base_type :: "anno \<Rightarrow> anno" where
  "base_type t = (case t of Annotated u ms \<Rightarrow> u | _ \<Rightarrow> t)"

text \<open>
  Two declarations that tag a field with the same reference name and give it different
  types:
  \<^verbatim>\<open>
  class PageA(TypedDict):
      data: Annotated[Dict[str, List], Field(description="columns"), AsRef("Dataframe")]

  class PageB(TypedDict):
      filled: Annotated[Dict[str, List[bool]], Field(description="flags"), AsRef("Dataframe")]
  \<close>
\<close>

definition PageA :: typed_dict where
  "PageA =
     \<lparr>td_annotations =
        [(''data'', Annotated DataFrame [FieldInfo (Some ''columns'') None, AsRef ''Dataframe''])],
      td_doc = None, td_attributes = dict_methods\<rparr>"

definition PageB :: typed_dict where
  "PageB =
     \<lparr>td_annotations =
        [(''filled'',
            Annotated (TypingAlias ''dict'' [Cls ''str'', TypingAlias ''list'' [Cls ''bool'']])
              [FieldInfo (Some ''flags'') None, AsRef ''Dataframe''])],
      td_doc = None, td_attributes = dict_methods\<rparr>"

definition two_pages :: state where
  "two_pages =
     \<lparr>typed_dicts = [(''PageA'', PageA), (''PageB'', PageB)],
      models = [],
      default_new_basemodel_classes = [],
      extra_schema = [],
      files = []\<rparr>"

text \<open>
  Two declarations in which a reference name is also the name of a nested declaration.
  The fields \<^verbatim>\<open>Inner.x\<close> and \<^verbatim>\<open>Outer.b\<close> carry the same tag and have the same
  type:
  \<^verbatim>\<open>
  class Inner(TypedDict):
      x: Annotated[int, Field(description="inner"), AsRef("Inner")]

  class Outer(TypedDict):
      a: Annotated[Inner, Field(description="nested")]
      b: Annotated[int, Field(description="outer"), AsRef("Inner")]
  \<close>
\<close>

definition Inner :: typed_dict where
  "Inner =
     \<lparr>td_annotations =
        [(''x'', Annotated (Cls ''int'') [FieldInfo (Some ''inner'') None, AsRef ''Inner''])],
      td_doc = None, td_attributes = dict_methods\<rparr>"

definition Outer :: typed_dict where
  "Outer =
     \<lparr>td_annotations =
        [(''a'', Annotated (TypedDictCls ''Inner'') [FieldInfo (Some ''nested'') None]),
         (''b'', Annotated (Cls ''int'') [FieldInfo (Some ''outer'') None, AsRef ''Inner''])],
      td_doc = None, td_attributes = dict_methods\<rparr>"

definition nested_pages :: state where
  "nested_pages =
     \<lparr>typed_dicts = [(''Inner'', Inner), (''Outer'', Outer)],
      models = [],
      default_new_basemodel_classes = [],
      extra_schema = [],
      files = []\<rparr>"

definition positionals :: "argument list \<Rightarrow> argument list" where
  "positionals parser = filter (\<lambda>a. arg_kind a = Positional) parser"

definition flags :: "argument list \<Rightarrow> string list" where
  "flags parser = concat (map option_strings (filter (\<lambda>a. arg_kind a = Flag) parser))"

definition returned :: "'e + 'a \<Rightarrow> 'a option" where
  "returned r = (case r of Inl e \<Rightarrow> None | Inr x \<Rightarrow> Some x)"

text \<open>The state after \<^verbatim>\<open>parse_typeddict_to_schema(PageA, return_basemodel=True)\<close>.\<close>

definition after_PageA :: state where
  "after_PageA =
     \<lparr>typed_dicts =
        [(''PageA'', PageA\<lparr>td_annotations :=
            [(''data'', Annotated (ModelCls 0) [FieldInfo (Some ''columns'') None])]\<rparr>),
         (''PageB'', PageB)],
      models =
        [\<lparr>m_name = ''Dataframe'',
          m_annotations =
            [(''__root__'',
                Annotated (Generic ''dict'' [Cls ''str'', TypingAlias ''list'' []])
                  [FieldInfo None None])],
          m_defaults = [(''__root__'', PyNone)], m_doc = None\<rparr>,
         \<lparr>m_name = ''PageA'',
          m_annotations =
            [(''data'', Annotated (ModelCls 0) [FieldInfo (Some ''columns'') None])],
          m_defaults = [(''data'', Ellipsis)], m_doc = None\<rparr>],
      default_new_basemodel_classes = [(''Dataframe'', 0)],
      extra_schema = [],
      files = []\<rparr>"

section \<open>Annotations that normalisation leaves alone\<close>

text \<open>
  The predicates used to compare two runs of the generator. A type is \<open>plain\<close> when it
  is built from classes and subscripted generics only. The docstring of
  \<^verbatim>\<open>get_field_type\<close> assumes that a field's annotation is \<^verbatim>\<open>Annotated[...]\<close> or has no
  origin; \<open>well_shaped\<close> is that assumption: a plain type, or a plain type annotated
  with reference tags and metadata objects, possibly inside \<^verbatim>\<open>NotRequired\<close>. A plain
  type is \<open>canonical\<close> when subscripting its origin with its arguments gives the type
  itself at every level, which for a \<^verbatim>\<open>Union\<close> means no nested union, no repeated
  member and not exactly one member, and for an alias of \<^verbatim>\<open>typing\<close> that it is
  bare. \<open>depth\<close> counts the levels of subscription that
  \<^verbatim>\<open>change_sub_typed_dicts_to_basemodels\<close> descends. \<open>normalised n a\<close> says that \<open>a\<close> is
  \<^verbatim>\<open>Annotated[t, info]\<close> with \<open>t\<close> plain, canonical and of depth at most \<open>n - 2\<close>, and
  \<open>info\<close> a metadata object.
\<close>

fun is_union :: "anno \<Rightarrow> bool" where
  "is_union (Generic c args) = (c = ''Union'')"
| "is_union _ = False"

fun plain :: "anno \<Rightarrow> bool" where
  "plain (Cls _) = True"
| "plain (TypedDictCls _) = True"
| "plain (ModelCls _) = True"
| "plain (Generic c args) = list_all plain args"
| "plain (TypingAlias c args) = list_all plain args"
| "plain _ = False"

fun canonical :: "anno \<Rightarrow> bool" where
  "canonical (Cls _) = True"
| "canonical (ModelCls _) = True"
| "canonical (Generic c args) =
     (list_all canonical args \<and>
      (if c = ''Union'' \<and> args \<noteq> []
       then list_all (\<lambda>b. \<not> is_union b) args \<and> deduplicate args = args \<and> length args \<noteq> 1
       else True))"
| "canonical (TypingAlias c args) = (args = [])"
| "canonical _ = False"

fun depth :: "anno \<Rightarrow> nat" where
  "depth (Generic c args) = (if args = [] then 0 else Suc (foldr max (map depth args) 0))"
| "depth (TypingAlias c args) = (if args = [] then 0 else Suc (foldr max (map depth args) 0))"
| "depth (Annotated t ms) = Suc (max (depth t) (foldr max (map depth ms) 0))"
| "depth (NotRequired t) = Suc (depth t)"
| "depth _ = 0"

definition flatten :: "anno list \<Rightarrow> anno list" where
  "flatten params = concat (map (\<lambda>p. case p of
                                   Generic c args \<Rightarrow> if c = ''Union'' then args else [p]
                                 | _ \<Rightarrow> [p]) params)"

fun shaped :: "anno \<Rightarrow> bool" where
  "shaped (Annotated t ms) = (plain t \<and> list_all ALLOWED_ANNOTATION_ELEMENTS ms)"
| "shaped b = plain b"

fun well_shaped :: "anno \<Rightarrow> bool" where
  "well_shaped (NotRequired t) = shaped t"
| "well_shaped a = shaped a"

definition normalised :: "nat \<Rightarrow> anno \<Rightarrow> bool" where
  "normalised n a =
     (case a of
        Annotated t ms \<Rightarrow>
          plain t \<and> canonical t \<and> depth t + 2 \<le> n \<and>
          (case ms of [fi] \<Rightarrow> is_FieldInfo fi | _ \<Rightarrow> False)
      | _ \<Rightarrow> False)"

text \<open>The model class that \<^verbatim>\<open>create_model\<close> makes from a declaration.\<close>

definition model_of :: "string \<Rightarrow> typed_dict \<Rightarrow> model" where
  "model_of name td =
     \<lparr>m_name = name,
      m_annotations = td_annotations td,
      m_defaults = map (\<lambda>(f, a). (f, getattr_default td f)) (td_annotations td),
      m_doc = td_doc td\<rparr>"

text \<open>
  A renderer for examples: the title, the docstring and the names of the properties of
  the model, and the schema it gives for \<^verbatim>\<open>EventPage\<close> once the properties are sorted.
\<close>

definition outline_schema :: renderer where
  "outline_schema ms m =
     (if m < length ms then
        Inr [(''title'', JStr (m_name (ms ! m))),
             (''description'', (case m_doc (ms ! m) of None \<Rightarrow> JNull | Some d \<Rightarrow> JStr d)),
             (''type'', JStr ''object''),
             (''properties'',
                JDict (map (\<lambda>(f, a). (f, JDict [(''title'', JStr f)]))
                         (m_annotations (ms ! m))))]
      else Inl NoSuchObject)"

definition event_page_outline :: dict where
  "event_page_outline =
     [(''title'', JStr ''event_page''),
      (''description'', JStr ''Page of documents to record a quanta of collected data''),
      (''type'', JStr ''object''),
      (''properties'',
         JDict [(''data'', JDict [(''title'', JStr ''data'')]),
                (''descriptor'', JDict [(''title'', JStr ''descriptor'')]),
                (''filled'', JDict [(''title'', JStr ''filled'')]),
                (''seq_num'', JDict [(''title'', JStr ''seq_num'')]),
                (''time'', JDict [(''title'', JStr ''time'')]),
                (''timestamps'', JDict [(''title'', JStr ''timestamps'')]),
                (''uid'', JDict [(''title'', JStr ''uid'')])])]"

section \<open>Properties of \<^verbatim>\<open>merge_dicts\<close>\<close>

lemma merge_dicts_assign:
  "merge_dicts dict1 dict2 = fold (assign (merge_entry dict1 dict2)) (keys dict1) dict2"
  unfolding assign_def merge_entry_def
  by (subst merge_dicts.simps) (auto intro!: fold_cong split: option.splits)

lemma map_of_fold_assign:
  "map_of (fold (assign g) ks acc) k =
     (if k \<in> set ks then (case g k of None \<Rightarrow> map_of acc k | Some v \<Rightarrow> Some v)
      else map_of acc k)"
  by (induction ks arbitrary: acc)
     (auto simp: assign_def AList.update_conv' split: option.splits)

lemma keys_fold_assign:
  "set (keys (fold (assign g) ks acc)) = set (keys acc) \<union> {k \<in> set ks. g k \<noteq> None}"
  by (induction ks arbitrary: acc)
     (auto simp: assign_def keys_def AList.dom_update split: option.splits)

lemma wf_fold_assign: "wf_dict acc \<Longrightarrow> wf_dict (fold (assign g) ks acc)"
  by (induction ks arbitrary: acc)
     (auto simp: assign_def keys_def wf_dict_def AList.distinct_update split: option.splits)

text \<open>What the merged dictionary holds under a key.\<close>

lemma map_of_merge_dicts:
  "map_of (merge_dicts dict1 dict2) k =
     (case merge_entry dict1 dict2 k of None \<Rightarrow> map_of dict2 k | Some v \<Rightarrow> Some v)"
proof (cases "k \<in> set (keys dict1)")
  case True
  then show ?thesis by (simp add: merge_dicts_assign map_of_fold_assign)
next
  case False
  then have "map_of dict1 k = None"
    by (simp add: keys_def map_of_eq_None_iff)
  then show ?thesis
    by (simp add: merge_dicts_assign map_of_fold_assign merge_entry_def)
qed

text \<open>The result is a well-formed dictionary whose keys are the keys of both inputs.\<close>

lemma wf_merge_dicts: "wf_dict dict2 \<Longrightarrow> wf_dict (merge_dicts dict1 dict2)"
  by (simp add: merge_dicts_assign wf_fold_assign)

lemma set_keys_merge_dicts:
  "set (keys (merge_dicts dict1 dict2)) = set (keys dict1) \<union> set (keys dict2)"
proof -
  have "k \<in> set (keys d) \<longleftrightarrow> map_of d k \<noteq> None" for k and d :: dict
    by (simp add: keys_def map_of_eq_None_iff)
  then show ?thesis
    by (auto simp: map_of_merge_dicts merge_entry_def split: option.splits if_splits)
qed

text \<open>
  Claim C3, as stated, on the code. The specification's example says that merging the
  fragment \<^verbatim>\<open>{"properties": {"a": {"enum": [1,2]}}}\<close> into the generated schema
  \<^verbatim>\<open>{"properties": {"a": {"type": "integer"}, "b": {"type": "string"}}}\<close> returns
  \<^verbatim>\<open>{"properties": {"a": {"enum": [1,2]}, "b": {"type": "string"}}}\<close>. The function does
  not return that dictionary.
\<close>

theorem merge_dicts_fragment_replaces_counterexample:
  "merge_dicts
     [(''properties'', JDict [(''a'', JDict [(''enum'', JList [JInt 1, JInt 2])])])]
     [(''properties'', JDict [(''a'', JDict [(''type'', JStr ''integer'')]),
                              (''b'', JDict [(''type'', JStr ''string'')])])]
   \<noteq> [(''properties'', JDict [(''a'', JDict [(''enum'', JList [JInt 1, JInt 2])]),
                               (''b'', JDict [(''type'', JStr ''string'')])])]"
  by code_simp

text \<open>
  Claim C3, amended. Under the key \<^verbatim>\<open>a\<close> both values are dictionaries, so they are
  merged key by key as the docstring of \<^verbatim>\<open>merge_dicts\<close> shows: the result is
  \<^verbatim>\<open>{"properties": {"a": {"type": "integer", "enum": [1,2]}, "b": {"type": "string"}}}\<close>,
  the generated \<^verbatim>\<open>type\<close> is kept, the fragment's \<^verbatim>\<open>enum\<close> is added after it, and the
  sibling \<^verbatim>\<open>b\<close> is preserved.
\<close>

theorem merge_dicts_fragment_example:
  "merge_dicts
     [(''properties'', JDict [(''a'', JDict [(''enum'', JList [JInt 1, JInt 2])])])]
     [(''properties'', JDict [(''a'', JDict [(''type'', JStr ''integer'')]),
                              (''b'', JDict [(''type'', JStr ''string'')])])]
   = [(''properties'', JDict [(''a'', JDict [(''type'', JStr ''integer''),
                                             (''enum'', JList [JInt 1, JInt 2])]),
                              (''b'', JDict [(''type'', JStr ''string'')])])]"
  by code_simp

text \<open>
  What the merge holds under a key, case by case, for a hand-authored fragment \<open>frag\<close>
  and a generated schema \<open>gen\<close>: a key that only one of them has keeps that one's value
  (\<open>k1\<close>, \<open>k2\<close>); a key with a dictionary on both sides maps to the recursive merge of
  the two (\<open>k3\<close>); a key with a list on both sides maps to the fragment's list followed
  by the generated one (\<open>k4\<close>); and a key for which the test
  \<^verbatim>\<open>not isinstance(dict1[key], type(dict2[key]))\<close> of line 82 holds maps to the
  fragment's value (\<open>k5\<close>).
\<close>

lemma merge_dicts_by_case:
  "(map_of frag k1 = None \<longrightarrow> map_of (merge_dicts frag gen) k1 = map_of gen k1) \<and>
   (map_of gen k2 = None \<longrightarrow> map_of (merge_dicts frag gen) k2 = map_of frag k2) \<and>
   (map_of frag k3 = Some (JDict d1) \<and> map_of gen k3 = Some (JDict d2) \<longrightarrow>
      map_of (merge_dicts frag gen) k3 = Some (JDict (merge_dicts d1 d2))) \<and>
   (map_of frag k4 = Some (JList l1) \<and> map_of gen k4 = Some (JList l2) \<longrightarrow>
      map_of (merge_dicts frag gen) k4 = Some (JList (l1 @ l2))) \<and>
   (map_of frag k5 = Some v1 \<and> map_of gen k5 = Some v2 \<and> \<not> isinstance v1 (type_of v2) \<longrightarrow>
      map_of (merge_dicts frag gen) k5 = Some v1)"
  by (auto simp: map_of_merge_dicts merge_entry_def isinstance_def issubclass_def
           split: option.splits)

text \<open>
  Claim C4, on the code. The claim's last case says that a key whose two values have
  mismatched types maps to the hand-authored value. The test of line 82 is
  \<^verbatim>\<open>not isinstance(dict1[key], type(dict2[key]))\<close>, and a Python \<^verbatim>\<open>bool\<close> is an
  instance of \<^verbatim>\<open>int\<close>. With the hand-authored \<^verbatim>\<open>True\<close> against the generated \<^verbatim>\<open>5\<close>
  the two types differ, the test is false, no later branch applies, and the generated
  value stays. With the two values exchanged, the hand-authored \<^verbatim>\<open>1\<close> against the
  generated \<^verbatim>\<open>True\<close>, the test holds and the hand-authored value is stored. The path
  on which nothing is stored is also the one on which the function departs from the
  example in its docstring, which gives \<^verbatim>\<open>"x3": 1\<close> for the hand-authored \<^verbatim>\<open>1\<close>
  against the generated \<^verbatim>\<open>0\<close>: the function returns \<^verbatim>\<open>"x3": 0\<close>.
\<close>

theorem merge_dicts_bool_against_int:
  "type_of (JBool True) \<noteq> type_of (JInt 5) \<and>
   merge_dicts [(''exclusiveMinimum'', JBool True)] [(''exclusiveMinimum'', JInt 5)]
     = [(''exclusiveMinimum'', JInt 5)] \<and>
   merge_dicts [(''exclusiveMinimum'', JInt 1)] [(''exclusiveMinimum'', JBool True)]
     = [(''exclusiveMinimum'', JInt 1)] \<and>
   merge_dicts
     [(''x1'', JDict [(''y1'', JInt 0),
                      (''y3'', JDict [(''z1'', JList [JInt 1, JInt 2]), (''z2'', JInt 1)])]),
      (''x2'', JInt 0), (''x3'', JInt 1)]
     [(''x1'', JDict [(''y2'', JInt 0),
                      (''y3'', JDict [(''z1'', JList [JInt 3, JInt 4]), (''z3'', JInt 5)])]),
      (''x3'', JInt 0)]
     = [(''x1'', JDict [(''y2'', JInt 0),
                        (''y3'', JDict [(''z1'', JList [JInt 1, JInt 2, JInt 3, JInt 4]),
                                        (''z3'', JInt 5), (''z2'', JInt 1)]),
                        (''y1'', JInt 0)]),
        (''x3'', JInt 0), (''x2'', JInt 0)]"
  by code_simp

text \<open>
  Claim C10. In \<open>merge_dicts frag gen\<close>, a key that both inputs have, with two values of
  the same type that is neither \<^verbatim>\<open>dict\<close> nor \<^verbatim>\<open>list\<close>, maps to the generated schema's
  value: no branch of the loop assigns to it, so the entry copied from \<open>gen\<close> stays and
  the fragment's value is dropped.
\<close>

theorem merge_dicts_same_scalar:
  "map_of frag k = Some v1 \<Longrightarrow> map_of gen k = Some v2 \<Longrightarrow> type_of v1 = type_of v2 \<Longrightarrow>
   type_of v1 \<noteq> DictC \<Longrightarrow> type_of v1 \<noteq> ListC \<Longrightarrow>
   map_of (merge_dicts frag gen) k = Some v2"
  by (auto simp: map_of_merge_dicts merge_entry_def isinstance_def issubclass_def)

theorem merge_dicts_same_scalar_witness:
  "map_of [(''title'', JStr ''by hand'')] ''title'' = Some (JStr ''by hand'') \<and>
   map_of [(''title'', JStr ''generated'')] ''title'' = Some (JStr ''generated'') \<and>
   type_of (JStr ''by hand'') = type_of (JStr ''generated'') \<and>
   type_of (JStr ''by hand'') \<noteq> DictC \<and> type_of (JStr ''by hand'') \<noteq> ListC \<and>
   map_of (merge_dicts [(''title'', JStr ''by hand'')] [(''title'', JStr ''generated'')])
     ''title'' = Some (JStr ''generated'')"
  using merge_dicts_same_scalar [of "[(''title'', JStr ''by hand'')]" "''title''"
      "JStr ''by hand''" "[(''title'', JStr ''generated'')]" "JStr ''generated''"]
  by simp

section \<open>Properties of \<^verbatim>\<open>sort_jsonschema\<close>\<close>

text \<open>
  Claim C6, on the code. The schema below has a \<^verbatim>\<open>properties\<close> mapping whose entry
  \<^verbatim>\<open>z\<close> is an object schema with a \<^verbatim>\<open>properties\<close> mapping of its own. The outer mapping
  comes back sorted (\<^verbatim>\<open>a\<close> before \<^verbatim>\<open>z\<close>); the inner one comes back as it was
  (\<^verbatim>\<open>y\<close> before \<^verbatim>\<open>x\<close>): the branch that sorts a \<^verbatim>\<open>properties\<close> mapping does not
  descend into its entries.
\<close>

theorem sort_jsonschema_nested_properties:
  "sort_jsonschema
     [(''title'', JStr ''t''),
      (''properties'',
         JDict [(''z'', JDict [(''type'', JStr ''object''),
                               (''properties'',
                                  JDict [(''y'', JDict [(''type'', JStr ''integer'')]),
                                         (''x'', JDict [(''type'', JStr ''string'')])])]),
                (''a'', JDict [(''type'', JStr ''integer'')])])]
   = Inr [(''title'', JStr ''t''),
      (''properties'',
         JDict [(''a'', JDict [(''type'', JStr ''integer'')]),
                (''z'', JDict [(''type'', JStr ''object''),
                               (''properties'',
                                  JDict [(''y'', JDict [(''type'', JStr ''integer'')]),
                                         (''x'', JDict [(''type'', JStr ''string'')])])])])]"
  by code_simp

section \<open>Properties of the annotation normaliser\<close>

subsection \<open>What a run leaves on the declaration\<close>

lemma root_not_attribute [simp]: "''__root__'' \<notin> set BaseModel_attributes"
  by (simp add: BaseModel_attributes_def)

lemma get_annotation_contents_FieldInfo: "is_FieldInfo (snd (get_annotation_contents t))"
proof -
  have "is_FieldInfo (snd (fold (\<lambda>arg (as_ref, field_info).
             if is_AsRef arg then (Some arg, field_info)
             else if is_FieldInfo arg then (as_ref, arg)
             else (as_ref, field_info)) args acc))" if "is_FieldInfo (snd acc)" for args acc
    using that by (induction args arbitrary: acc) (auto split: prod.splits)
  then show ?thesis by (simp add: get_annotation_contents_def Field'_def)
qed

lemma is_FieldInfo_set_regex: "is_FieldInfo fi \<Longrightarrow> is_FieldInfo (set_regex r fi)"
  by (cases fi) auto

lemma field_parser_replaces:
  assumes "field_parser n f a c s = Inr (a', c', s')"
  shows "\<exists>t info. is_FieldInfo info \<and>
           a' = mk_annotated (if get_origin a = Some ONotRequired then Optional t else t) [info]"
proof -
  from assms obtain k where n: "n = Suc k" by (cases n) auto
  from assms n obtain a1 b where
    fr: "field_is_not_required a True = Inr (a1, b)"
    by (auto split: sum.splits)
  then have b: "b = (get_origin a = Some ONotRequired)"
    by (auto simp: field_is_not_required_def Let_def split: if_splits list.splits)
  obtain as_ref fi where gc: "get_annotation_contents a1 = (as_ref, fi)"
    by (cases "get_annotation_contents a1")
  with get_annotation_contents_FieldInfo [of a1] have fi: "is_FieldInfo fi" by simp
  from assms n fr gc obtain t info where
    "a' = mk_annotated (if b then Optional t else t) [info]" and
    "info = fi \<or> info = set_regex None fi"
    by (auto split: sum.splits option.splits)
  with fi is_FieldInfo_set_regex [OF fi, of None] b show ?thesis by auto
qed

lemma parse_fields_replaces:
  assumes "parse_fields n fs acc c s = Inr (res, c', s')"
    and "distinct (map fst acc @ map fst fs)"
  shows "\<exists>new. res = acc @ new \<and>
           list_all2 (\<lambda>(f, a) (f', a'). f' = f \<and>
                        (\<exists>t info. is_FieldInfo info \<and>
                           a' = mk_annotated
                                  (if get_origin a = Some ONotRequired then Optional t else t)
                                  [info]))
             fs new"
  using assms
proof (induction fs arbitrary: acc c s)
  case Nil
  then show ?case by simp
next
  case (Cons p fs)
  let ?R = "\<lambda>(f, a) (f', a'). f' = f \<and>
                        (\<exists>t info. is_FieldInfo info \<and>
                           a' = mk_annotated
                                  (if get_origin a = Some ONotRequired then Optional t else t)
                                  [info])"
  obtain f a where p: "p = (f, a)" by (cases p)
  from Cons.prems(1) obtain a' c1 s1 where
    fp: "field_parser n f a c s = Inr (a', c1, s1)" and
    rest: "parse_fields n fs (AList.update f a' acc) c1 s1 = Inr (res, c', s')"
    by (auto simp: p split: sum.splits)
  from Cons.prems(2) have "f \<notin> fst ` set acc" by (auto simp: p)
  then have upd: "AList.update f a' acc = acc @ [(f, a')]"
    by (induction acc) auto
  with Cons.prems(2) have "distinct (map fst (AList.update f a' acc) @ map fst fs)"
    by (auto simp: p)
  from Cons.IH [OF rest this] obtain new where
    new: "res = AList.update f a' acc @ new" and all: "list_all2 ?R fs new"
    by blast
  have one: "?R (f, a) (f, a')"
    using field_parser_replaces [OF fp] by (simp only: prod.case simp_thms)
  show ?case unfolding p
  proof (intro exI conjI)
    show "res = acc @ (f, a') # new" using new upd by simp
    show "list_all2 ?R ((f, a) # fs) ((f, a') # new)"
      using one all by (simp only: list_all2_Cons simp_thms)
  qed
qed

lemma field_parser_annotated:
  "field_parser n f t c s = Inr (a, c', s') \<Longrightarrow> get_origin a = Some OAnnotated"
  by (cases n)
     (auto simp: mk_annotated_def split: sum.splits prod.splits option.splits anno.splits)

lemma parse_fields_keys:
  "parse_fields n fs acc c s = Inr (res, c', s') \<Longrightarrow> distinct (map fst acc @ map fst fs) \<Longrightarrow>
   map fst res = map fst acc @ map fst fs"
proof (induction fs arbitrary: acc c s)
  case Nil
  then show ?case by simp
next
  case (Cons p fs)
  obtain f t where p: "p = (f, t)" by (cases p)
  from Cons.prems(1) obtain a c1 s1 where
    rest: "parse_fields n fs (AList.update f a acc) c1 s1 = Inr (res, c', s')"
    by (auto simp: p split: sum.splits)
  from Cons.prems(2) have k: "map fst (AList.update f a acc) = map fst acc @ [f]"
    by (auto simp: p AList.update_keys)
  with Cons.prems(2) have "distinct (map fst (AList.update f a acc) @ map fst fs)"
    by (auto simp: p)
  from Cons.IH [OF rest this] k show ?case by (simp add: p)
qed

lemma parse_fields_annotated:
  "parse_fields n fs acc c s = Inr (res, c', s') \<Longrightarrow>
   list_all (\<lambda>(f, a). get_origin a = Some OAnnotated) acc \<Longrightarrow>
   list_all (\<lambda>(f, a). get_origin a = Some OAnnotated) res"
proof (induction fs arbitrary: acc c s)
  case Nil
  then show ?case by simp
next
  case (Cons p fs)
  obtain f t where p: "p = (f, t)" by (cases p)
  from Cons.prems(1) obtain a c1 s1 where
    fp: "field_parser n f t c s = Inr (a, c1, s1)" and
    rest: "parse_fields n fs (AList.update f a acc) c1 s1 = Inr (res, c', s')"
    by (auto simp: p split: sum.splits)
  have "list_all (\<lambda>(f, a). get_origin a = Some OAnnotated) (AList.update f a acc)"
    using Cons.prems(2) field_parser_annotated [OF fp]
    by (induction acc) auto
  from Cons.IH [OF rest this] show ?case .
qed

text \<open>
  Claim C7, as stated, on the code. \<^verbatim>\<open>EventPage\<close> declares
  \<^verbatim>\<open>filled: NotRequired[Annotated[DataFrameForFilled, Field(...)]]\<close>, where
  \<^verbatim>\<open>DataFrameForFilled\<close> is \<^verbatim>\<open>Dict[str, List[Union[bool, str]]]\<close>. After
  \<^verbatim>\<open>format_all_annotations(EventPage)\<close> the annotation of \<^verbatim>\<open>filled\<close> on the class is
  \<^verbatim>\<open>Annotated[Optional[dict[str, list[Union[bool, str]]]], Field(...)]\<close>: the function
  ends with \<^verbatim>\<open>typed_dict.__annotations__ = new_annotations\<close>.
\<close>

theorem format_all_annotations_counterexample:
  "annotation_of at_import ''EventPage'' ''filled''
     = Some (NotRequired (Annotated DataFrameForFilled [filled_info])) \<and>
   map_option (\<lambda>(c, s). annotation_of s ''EventPage'' ''filled'')
       (returned (format_all_annotations 1000 ''EventPage'' [] at_import))
     = Some (Some (Annotated
                     (Generic ''Union''
                        [Generic ''dict''
                           [Cls ''str'',
                            Generic ''list'' [Generic ''Union'' [Cls ''bool'', Cls ''str'']]],
                         Cls ''NoneType''])
                     [filled_info]))"
  by code_simp

text \<open>
  Claim C7, amended. A run of \<^verbatim>\<open>format_all_annotations\<close> that returns replaces the
  annotations on the declaration it was given. The field names and their order stay.
  The annotation of every field becomes \<^verbatim>\<open>Annotated[t, info]\<close> for a type \<open>t\<close> and one
  metadata object \<open>info\<close>, and for a field declared \<^verbatim>\<open>NotRequired[...]\<close> it becomes
  \<^verbatim>\<open>Annotated[Optional[t], info]\<close>: no field carries the marker \<^verbatim>\<open>NotRequired\<close> after
  the run.
\<close>

theorem format_all_annotations_replaces:
  assumes "format_all_annotations n td c s = Inr (c', s')"
    and "map_of (typed_dicts s) td = Some d"
    and "distinct (map fst (td_annotations d))"
  shows "\<exists>d'. map_of (typed_dicts s') td = Some d' \<and>
              map fst (td_annotations d') = map fst (td_annotations d) \<and>
              list_all2 (\<lambda>(f, a) (f', a'). f' = f \<and>
                           (\<exists>t info. is_FieldInfo info \<and>
                              a' = mk_annotated
                                     (if get_origin a = Some ONotRequired then Optional t else t)
                                     [info]))
                (td_annotations d) (td_annotations d') \<and>
              list_all (\<lambda>(f, a'). get_origin a' = Some OAnnotated \<and>
                                  get_origin a' \<noteq> Some ONotRequired) (td_annotations d')"
proof (cases n)
  case 0
  with assms(1) show ?thesis by simp
next
  case (Suc k)
  with assms(1,2) obtain new c1 s1 d1 where
    pf: "parse_fields k (td_annotations d) [] c s = Inr (new, c1, s1)" and
    s': "s' = s1\<lparr>typed_dicts := AList.update td (d1\<lparr>td_annotations := new\<rparr>) (typed_dicts s1)\<rparr>"
    by (auto split: sum.splits option.splits)
  from parse_fields_keys [OF pf] assms(3) have "map fst new = map fst (td_annotations d)"
    by simp
  moreover from parse_fields_annotated [OF pf]
  have "list_all (\<lambda>(f, a'). get_origin a' = Some OAnnotated \<and>
                            get_origin a' \<noteq> Some ONotRequired) new"
    by (auto simp: list_all_iff)
  moreover from parse_fields_replaces [OF pf] assms(3)
  have "list_all2 (\<lambda>(f, a) (f', a'). f' = f \<and>
                           (\<exists>t info. is_FieldInfo info \<and>
                              a' = mk_annotated
                                     (if get_origin a = Some ONotRequired then Optional t else t)
                                     [info]))
                (td_annotations d) new"
    by simp
  ultimately show ?thesis
    by (simp add: s' AList.update_conv')
qed

text \<open>
  The run for \<^verbatim>\<open>EventPage\<close>: \<^verbatim>\<open>filled\<close>, declared \<^verbatim>\<open>NotRequired[Annotated[...]]\<close>,
  gets \<^verbatim>\<open>Annotated[Optional[...], ...]\<close>; the other six fields, declared
  \<^verbatim>\<open>Annotated[...]\<close>, keep that form.
\<close>

theorem format_all_annotations_replaces_witness:
  "\<exists>c' s'.
     format_all_annotations 1000 ''EventPage'' [] at_import = Inr (c', s') \<and>
     map_of (typed_dicts at_import) ''EventPage'' = Some EventPage \<and>
     distinct (map fst (td_annotations EventPage)) \<and>
     annotation_of at_import ''EventPage'' ''filled''
       = Some (NotRequired (Annotated DataFrameForFilled [filled_info])) \<and>
     annotation_of s' ''EventPage'' ''filled''
       = Some (Annotated
                 (Optional (Generic ''dict''
                    [Cls ''str'',
                     Generic ''list'' [Generic ''Union'' [Cls ''bool'', Cls ''str'']]]))
                 [filled_info]) \<and>
     (\<exists>d'. map_of (typed_dicts s') ''EventPage'' = Some d' \<and>
           map fst (td_annotations d') = map fst (td_annotations EventPage) \<and>
           list_all2 (\<lambda>(f, a) (f', a'). f' = f \<and>
                        (\<exists>t info. is_FieldInfo info \<and>
                           a' = mk_annotated
                                  (if get_origin a = Some ONotRequired then Optional t else t)
                                  [info]))
             (td_annotations EventPage) (td_annotations d') \<and>
           list_all (\<lambda>(f, a'). get_origin a' = Some OAnnotated \<and>
                               get_origin a' \<noteq> Some ONotRequired) (td_annotations d'))"
proof -
  have "returned (format_all_annotations 1000 ''EventPage'' [] at_import) \<noteq> None"
    by code_simp
  then obtain c' s' where
    run: "format_all_annotations 1000 ''EventPage'' [] at_import = Inr (c', s')"
    by (auto simp: returned_def split: sum.splits)
  have decl: "map_of (typed_dicts at_import) ''EventPage'' = Some EventPage"
    by (simp add: at_import_def)
  have names: "distinct (map fst (td_annotations EventPage))"
    by (simp add: EventPage_def)
  have before: "annotation_of at_import ''EventPage'' ''filled''
       = Some (NotRequired (Annotated DataFrameForFilled [filled_info]))"
    by code_simp
  have "map_option (\<lambda>(c, s). annotation_of s ''EventPage'' ''filled'')
          (returned (format_all_annotations 1000 ''EventPage'' [] at_import))
      = Some (Some (Annotated
                 (Optional (Generic ''dict''
                    [Cls ''str'',
                     Generic ''list'' [Generic ''Union'' [Cls ''bool'', Cls ''str'']]]))
                 [filled_info]))"
    by code_simp
  with run have after: "annotation_of s' ''EventPage'' ''filled''
       = Some (Annotated
                 (Optional (Generic ''dict''
                    [Cls ''str'',
                     Generic ''list'' [Generic ''Union'' [Cls ''bool'', Cls ''str'']]]))
                 [filled_info])"
    by (simp add: returned_def)
  from format_all_annotations_replaces [OF run decl names] run decl names before after
  show ?thesis by blast
qed

subsection \<open>Reference names\<close>

lemma get_args_mk_annotated: "\<exists>rest. get_args (mk_annotated t ms) = base_type t # rest"
  by (cases t) (auto simp: mk_annotated_def base_type_def)

lemma parse_AsRef_miss:
  assumes "map_of c r = None"
  shows "parse_AsRef t fi (AsRef r) c s =
           Inr (ModelCls (length (models s)), AList.update r (length (models s)) c,
                s\<lparr>models := models s @
                   [\<lparr>m_name = r,
                     m_annotations = [(''__root__'', mk_annotated t
                        [if truthy (regex fi) then set_regex (regex fi) Field' else Field'])],
                     m_defaults = [(''__root__'', PyNone)], m_doc = None\<rparr>]\<rparr>)"
  using assms by (simp add: parse_AsRef_def create_model_def Let_def)

lemma parse_AsRef_hit:
  assumes "map_of c r = Some w" "w < length (models s)"
    "map_of (m_annotations (models s ! w)) ''__root__'' = Some (mk_annotated t1 ms)"
  shows "parse_AsRef t2 fi (AsRef r) c s =
           (if py_eq (base_type t2) (base_type t1) then Inr (ModelCls w, c, s)
            else Inl AssertionError)"
proof -
  obtain r1 where 1: "get_args (mk_annotated t1 ms) = base_type t1 # r1"
    using get_args_mk_annotated by blast
  obtain r2 where 2: "get_args (mk_annotated t2
      [if truthy (regex fi) then set_regex (regex fi) Field' else Field']) = base_type t2 # r2"
    using get_args_mk_annotated by blast
  show ?thesis
    using assms 1 2 by (simp add: parse_AsRef_def Let_def)
qed

text \<open>
  Claim C2, on the code. \<^verbatim>\<open>Inner.x\<close> and \<^verbatim>\<open>Outer.b\<close> are two fields of one generation
  run, tagged with the same reference name \<^verbatim>\<open>Inner\<close> and both of type \<^verbatim>\<open>int\<close>, so
  the claim has both resolve to one wrapper model. The run for \<^verbatim>\<open>Outer\<close>, started
  with an empty cache, first converts the nested declaration of field \<^verbatim>\<open>a\<close>: the
  tag on \<^verbatim>\<open>Inner.x\<close> makes the wrapper and caches it under \<^verbatim>\<open>Inner\<close>
  (lines 292 to 297), and then \<^verbatim>\<open>change_sub_typed_dicts_to_basemodels\<close> stores the
  model of the declaration \<^verbatim>\<open>Inner\<close> under the same key (line 341), which replaces
  the wrapper. For \<^verbatim>\<open>Outer.b\<close> the name is found in the cache, and the lookup
  \<^verbatim>\<open>new_basemodel_classes["Inner"].__annotations__["__root__"]\<close> (lines 299 to 301)
  raises \<^verbatim>\<open>KeyError\<close>: the model found has the field \<^verbatim>\<open>x\<close> and no \<^verbatim>\<open>__root__\<close>.
  The run ends there whatever the renderer, the output directory and the flags are.
\<close>

theorem parse_AsRef_name_of_nested_declaration:
  "annotation_of nested_pages ''Inner'' ''x''
     = Some (Annotated (Cls ''int'') [FieldInfo (Some ''inner'') None, AsRef ''Inner'']) \<and>
   annotation_of nested_pages ''Outer'' ''b''
     = Some (Annotated (Cls ''int'') [FieldInfo (Some ''outer'') None, AsRef ''Inner'']) \<and>
   default_new_basemodel_classes nested_pages = [] \<and>
   parse_typeddict_to_schema schema 1000 ''Outer'' out_directory return_basemodel None
       sort_properties nested_pages
     = Inl KeyError"
  by code_simp

subsection \<open>The cache across invocations\<close>

text \<open>
  Claim C8, on the code. In a process where no schema has been generated yet the default
  dictionary is empty. \<^verbatim>\<open>parse_typeddict_to_schema(PageA, return_basemodel=True)\<close>,
  called without \<^verbatim>\<open>new_basemodel_classes\<close>, leaves the wrapper \<^verbatim>\<open>Dataframe\<close> in
  that dictionary. The next invocation, for \<^verbatim>\<open>PageB\<close> and again without the argument,
  with any output directory and flags, starts with this entry, finds it for its own
  \<^verbatim>\<open>AsRef("Dataframe")\<close> and stops at the assertion; started with an empty cache, as in
  a fresh process, the same invocation returns.
\<close>

theorem default_cache_outlives_invocation:
  "default_new_basemodel_classes two_pages = [] \<and>
   parse_typeddict_to_schema schema 1000 ''PageA'' NoneObj True None True two_pages
     = Inr (BaseModelResult 1, [(''Dataframe'', 0)], after_PageA) \<and>
   default_new_basemodel_classes after_PageA = [(''Dataframe'', 0)] \<and>
   parse_typeddict_to_schema schema' 1000 ''PageB'' out_directory return_basemodel None
       sort_properties after_PageA
     = Inl AssertionError \<and>
   returned (parse_typeddict_to_schema schema 1000 ''PageB'' NoneObj True None True two_pages)
     \<noteq> None"
  by code_simp

subsection \<open>Models are only added\<close>

lemma models_grow:
  "change_sub_typed_dicts_to_basemodels n t c s = Inr (t', c', s') \<Longrightarrow>
     prefix (models s) (models s')"
  "change_args n ts c s = Inr (ts', c', s') \<Longrightarrow> prefix (models s) (models s')"
  "typeddict_to_basemodel n td c s = Inr (m, c', s') \<Longrightarrow> prefix (models s) (models s')"
  "format_all_annotations n td c s = Inr (c', s') \<Longrightarrow> prefix (models s) (models s')"
  "parse_fields n fs acc c s = Inr (res, c', s') \<Longrightarrow> prefix (models s) (models s')"
  "field_parser n f t c s = Inr (t', c', s') \<Longrightarrow> prefix (models s) (models s')"
  "get_field_type n f t c s = Inr (t', c', s') \<Longrightarrow> prefix (models s) (models s')"
proof (induction n t c s and n ts c s and n td c s and n td c s and n fs acc c s
         and n f t c s and n f t c s
    arbitrary: t' c' s' and ts' c' s' and m c' s' and c' s' and res c' s' and t' c' s'
         and t' c' s'
    rule: change_sub_typed_dicts_to_basemodels_change_args_typeddict_to_basemodel_format_all_annotations_parse_fields_field_parser_get_field_type.induct)
qed (auto split: sum.splits option.splits prod.splits if_splits list.splits
      simp: create_model_def Let_def parse_AsRef_def
      intro: prefix_order.order_trans)

section \<open>Properties of the command line\<close>

text \<open>
  Claim C9, as stated, on the code. The parser of the entry point has no positional
  argument, and it has flags: the help flags and \<^verbatim>\<open>--schema_out_directory\<close>.
\<close>

theorem main_parser_counterexample:
  "map_option positionals (returned (main_parser ''schemas'')) = Some [] \<and>
   map_option flags (returned (main_parser ''schemas''))
     = Some [''-h'', ''--help'', ''--schema_out_directory'']"
  by code_simp

text \<open>
  Claim C9, amended. The entry point defines one argument of its own: the flag
  \<^verbatim>\<open>--schema_out_directory\<close>, which takes at most one value and whose default is the
  fixed package-relative path \<^verbatim>\<open>SCHEMA_OUT_DIR\<close>. It defines no positional argument.
  With an empty command line the output directory is that default.
\<close>

theorem main_parser_flag:
  "main_parser SCHEMA_PATH =
     Inr (ArgumentParser @
          [\<lparr>arg_kind = Flag, option_strings = [''--schema_out_directory''],
            dest = ''schema_out_directory'', arg_default = SCHEMA_OUT_DIR SCHEMA_PATH,
            arg_nargs = AtMostOne\<rparr>]) \<and>
   map_option positionals (returned (main_parser SCHEMA_PATH)) = Some [] \<and>
   map_option flags (returned (main_parser SCHEMA_PATH))
     = Some [''-h'', ''--help'', ''--schema_out_directory''] \<and>
   map_option defaults (returned (main_parser SCHEMA_PATH))
     = Some [(''schema_out_directory'', SCHEMA_OUT_DIR SCHEMA_PATH)]"
  by (simp add: main_parser_def add_argument_def starts_with_dash_def ArgumentParser_def
        positionals_def flags_def defaults_def returned_def)

section \<open>Generating a schema twice\<close>

subsection \<open>Subscription of canonical types\<close>

lemma set_deduplicate: "set (deduplicate xs) \<subseteq> set xs"
  by (induction xs rule: deduplicate.induct) auto

lemma deduplicate_idem: "deduplicate (deduplicate xs) = deduplicate xs"
proof (induction xs rule: deduplicate.induct)
  case 1
  then show ?case by simp
next
  case (2 x xs)
  let ?D = "deduplicate (filter (\<lambda>y. \<not> py_eq x y) xs)"
  have "set ?D \<subseteq> set (filter (\<lambda>y. \<not> py_eq x y) xs)" by (rule set_deduplicate)
  then have "filter (\<lambda>y. \<not> py_eq x y) ?D = ?D"
    by (intro filter_True) auto
  with 2 show ?case by simp
qed

lemma mk_union_flatten:
  "mk_union params = (case deduplicate (flatten params) of [t] \<Rightarrow> t | ts \<Rightarrow> Generic ''Union'' ts)"
  by (simp add: mk_union_def flatten_def)

lemma flatten_no_union: "list_all (\<lambda>b. \<not> is_union b) xs \<Longrightarrow> flatten xs = xs"
  by (induction xs) (auto simp: flatten_def split: anno.splits)

lemma mk_union_fixed:
  "list_all (\<lambda>b. \<not> is_union b) args \<Longrightarrow> deduplicate args = args \<Longrightarrow> length args \<noteq> 1 \<Longrightarrow>
   mk_union args = Generic ''Union'' args"
  by (auto simp: mk_union_flatten flatten_no_union split: list.splits)

lemma stable_subscript:
  "canonical (Generic c args) \<Longrightarrow> args \<noteq> [] \<Longrightarrow> subscript (OClass c) args = Inr (Generic c args)"
  by (auto simp: subscript_def mk_union_fixed split: if_splits)

lemma flatten_members:
  assumes "x \<in> set (flatten params)" and "list_all (\<lambda>p. plain p \<and> canonical p) params"
  shows "plain x \<and> canonical x \<and> \<not> is_union x \<and> depth x \<le> foldr max (map depth params) 0"
  using assms
proof (induction params)
  case Nil
  then show ?case by (simp add: flatten_def)
next
  case (Cons p ps)
  show ?case
  proof (cases "x \<in> set (flatten ps)")
    case True
    with Cons show ?thesis by auto
  next
    case False
    with Cons.prems(1) have x: "x \<in> set (case p of
          Generic c args \<Rightarrow> if c = ''Union'' then args else [p] | _ \<Rightarrow> [p])"
      by (auto simp: flatten_def)
    show ?thesis
    proof (cases "is_union p")
      case True
      then obtain args where p: "p = Generic ''Union'' args" by (cases p) auto
      with x have xa: "x \<in> set args" by simp
      then have ne: "args \<noteq> []" by auto
      from Cons.prems(2) p ne have "list_all plain args" "list_all canonical args"
        "list_all (\<lambda>b. \<not> is_union b) args"
        by auto
      with xa have "plain x" "canonical x" "\<not> is_union x" by (auto simp: list_all_iff)
      moreover have "depth x \<le> foldr max (map depth args) 0"
        using xa by (induction args) auto
      then have "depth x \<le> depth p" using p ne by simp
      ultimately show ?thesis by auto
    next
      case False
      with x have "x = p" by (cases p) (auto split: if_splits)
      with False Cons.prems(2) show ?thesis by auto
    qed
  qed
qed

lemma foldr_max_le:
  "(\<And>x. x \<in> set xs \<Longrightarrow> f x \<le> (b :: nat)) \<Longrightarrow> foldr max (map f xs) 0 \<le> b"
  by (induction xs) auto

lemma mk_union_stable:
  assumes "list_all (\<lambda>p. plain p \<and> canonical p) params"
  shows "plain (mk_union params) \<and> canonical (mk_union params) \<and>
         depth (mk_union params) \<le> Suc (foldr max (map depth params) 0)"
proof -
  let ?ds = "deduplicate (flatten params)"
  have mem: "\<And>x. x \<in> set ?ds \<Longrightarrow>
      plain x \<and> canonical x \<and> \<not> is_union x \<and> depth x \<le> foldr max (map depth params) 0"
    using flatten_members [OF _ assms] set_deduplicate by blast
  have dmax: "foldr max (map depth ?ds) 0 \<le> foldr max (map depth params) 0"
    using mem by (intro foldr_max_le) auto
  show ?thesis
  proof (cases "\<exists>t. ?ds = [t]")
    case True
    then obtain t where t: "?ds = [t]" by blast
    then have "mk_union params = t" by (simp add: mk_union_flatten)
    with mem [of t] t show ?thesis by auto
  next
    case False
    then have u: "mk_union params = Generic ''Union'' ?ds"
      by (auto simp: mk_union_flatten split: list.splits)
    from False have len: "length ?ds \<noteq> 1"
      by (cases ?ds) auto
    have "list_all plain ?ds" "list_all canonical ?ds" "list_all (\<lambda>b. \<not> is_union b) ?ds"
      using mem by (auto simp: list_all_iff)
    with len dmax show ?thesis
      by (auto simp: u deduplicate_idem)
  qed
qed

lemma foldr_max_less:
  "xs \<noteq> [] \<Longrightarrow> (\<And>x. x \<in> set xs \<Longrightarrow> f x < (b :: nat)) \<Longrightarrow> foldr max (map f xs) 0 < b"
proof (induction xs)
  case Nil
  then show ?case by simp
next
  case (Cons a xs)
  show ?case
  proof (cases "xs = []")
    case True
    with Cons.prems show ?thesis by simp
  next
    case False
    with Cons have "foldr max (map f xs) 0 < b" by simp
    with Cons.prems(2) [of a] show ?thesis by simp
  qed
qed

lemma le_foldr_max: "x \<in> set xs \<Longrightarrow> f x \<le> foldr max (map f xs) (0 :: nat)"
  by (induction xs) auto


subsection \<open>The normaliser on plain types\<close>

lemma change_args_each:
  assumes "change_args n args c s = Inr (args', c', s')"
    and "\<And>a c s a' c' s'. a \<in> set args \<Longrightarrow>
           change_sub_typed_dicts_to_basemodels n a c s = Inr (a', c', s') \<Longrightarrow> P a'"
  shows "list_all P args' \<and> length args' = length args"
  using assms
proof (induction args arbitrary: args' c s)
  case Nil
  then show ?case by simp
next
  case (Cons a as)
  from Cons.prems(1) obtain a1 c1 s1 as1 where
    one: "change_sub_typed_dicts_to_basemodels n a c s = Inr (a1, c1, s1)" and
    two: "change_args n as c1 s1 = Inr (as1, c', s')" and
    args': "args' = a1 # as1"
    by (auto split: sum.splits)
  from Cons.prems(2) [OF _ one] have "P a1" by simp
  moreover have "list_all P as1 \<and> length as1 = length as"
  proof (rule Cons.IH [OF two])
    fix b c s b' c' s'
    assume "b \<in> set as" "change_sub_typed_dicts_to_basemodels n b c s = Inr (b', c', s')"
    with Cons.prems(2) [of b c s b' c' s'] show "P b'" by simp
  qed
  ultimately show ?case by (simp add: args')
qed

lemma change_sub_plain:
  "plain t \<Longrightarrow> change_sub_typed_dicts_to_basemodels n t c s = Inr (t', c', s') \<Longrightarrow>
   plain t' \<and> canonical t' \<and> depth t' < n"
proof (induction t arbitrary: n t' c s c' s')
  case (Generic c0 args)
  from Generic.prems(2) obtain k where n: "n = Suc k" by (cases n) auto
  show ?case
  proof (cases "args = []")
    case True
    with Generic.prems n show ?thesis by auto
  next
    case False
    with Generic.prems(2) n obtain args' c1 s1 where
      run: "change_args k args c s = Inr (args', c1, s1)" and
      sub: "subscript (OClass c0) args' = Inr t'"
      by (auto split: sum.splits)
    have each: "list_all (\<lambda>a. plain a \<and> canonical a \<and> depth a < k) args' \<and>
        length args' = length args"
    proof (rule change_args_each [OF run])
      fix a c s a' c' s'
      assume "a \<in> set args" "change_sub_typed_dicts_to_basemodels k a c s = Inr (a', c', s')"
      with Generic.IH [of a k c s a' c' s'] Generic.prems(1)
      show "plain a' \<and> canonical a' \<and> depth a' < k" by (auto simp: list_all_iff)
    qed
    with False have ne: "args' \<noteq> []" by auto
    from each have pc: "list_all (\<lambda>p. plain p \<and> canonical p) args'"
      by (auto simp: list_all_iff)
    from each ne have mx: "foldr max (map depth args') 0 < k"
      by (intro foldr_max_less) (auto simp: list_all_iff)
    show ?thesis
    proof (cases "c0 = ''Union''")
      case True
      with sub have "t' = mk_union args'" by (simp add: subscript_def)
      with mk_union_stable [OF pc] mx n show ?thesis by auto
    next
      case False
      with sub have "t' = Generic c0 args'" by (simp add: subscript_def)
      with each ne mx n False show ?thesis by (auto simp: list_all_iff)
    qed
  qed
next
  case (TypingAlias c0 args)
  from TypingAlias.prems(2) obtain k where n: "n = Suc k" by (cases n) auto
  show ?case
  proof (cases "args = []")
    case True
    with TypingAlias.prems n show ?thesis by auto
  next
    case False
    with TypingAlias.prems(2) n obtain args' c1 s1 where
      run: "change_args k args c s = Inr (args', c1, s1)" and
      sub: "subscript (OClass c0) args' = Inr t'"
      by (auto split: sum.splits)
    have each: "list_all (\<lambda>a. plain a \<and> canonical a \<and> depth a < k) args' \<and>
        length args' = length args"
    proof (rule change_args_each [OF run])
      fix a c s a' c' s'
      assume "a \<in> set args" "change_sub_typed_dicts_to_basemodels k a c s = Inr (a', c', s')"
      with TypingAlias.IH [of a k c s a' c' s'] TypingAlias.prems(1)
      show "plain a' \<and> canonical a' \<and> depth a' < k" by (auto simp: list_all_iff)
    qed
    with False have ne: "args' \<noteq> []" by auto
    from each have pc: "list_all (\<lambda>p. plain p \<and> canonical p) args'"
      by (auto simp: list_all_iff)
    from each ne have mx: "foldr max (map depth args') 0 < k"
      by (intro foldr_max_less) (auto simp: list_all_iff)
    show ?thesis
    proof (cases "c0 = ''Union''")
      case True
      with sub have "t' = mk_union args'" by (simp add: subscript_def)
      with mk_union_stable [OF pc] mx n show ?thesis by auto
    next
      case False
      with sub have "t' = Generic c0 args'" by (simp add: subscript_def)
      with each ne mx n False show ?thesis by (auto simp: list_all_iff)
    qed
  qed
next
  case (TypedDictCls x)
  then show ?case by (cases n) (auto split: sum.splits option.splits)
next
  case (Cls x)
  then show ?case by (cases n) auto
next
  case (ModelCls x)
  then show ?case by (cases n) auto
qed auto

lemma change_args_same:
  assumes "\<And>a c s. a \<in> set args \<Longrightarrow>
             change_sub_typed_dicts_to_basemodels n a c s = Inr (a, c, s)"
  shows "change_args n args c s = Inr (args, c, s)"
  using assms by (induction args) auto

lemma change_sub_canonical:
  "plain t \<Longrightarrow> canonical t \<Longrightarrow> depth t < n \<Longrightarrow>
   change_sub_typed_dicts_to_basemodels n t c s = Inr (t, c, s)"
proof (induction t arbitrary: n c s)
  case (Generic c0 args)
  from Generic.prems(3) obtain k where n: "n = Suc k" by (cases n) auto
  show ?case
  proof (cases "args = []")
    case True
    with n show ?thesis by simp
  next
    case False
    have "change_args k args c s = Inr (args, c, s)"
    proof (rule change_args_same)
      fix a c s
      assume a: "a \<in> set args"
      with Generic.prems n False have "depth a < k"
        using le_foldr_max [of a args depth] by auto
      with Generic.IH [OF a] Generic.prems(1,2) a
      show "change_sub_typed_dicts_to_basemodels k a c s = Inr (a, c, s)"
        by (auto simp: list_all_iff)
    qed
    with stable_subscript [OF Generic.prems(2) False] False n show ?thesis by simp
  qed
next
  case (TypingAlias c0 args)
  then show ?case by (cases n) auto
next
  case (Cls x)
  then show ?case by (cases n) auto
next
  case (ModelCls x)
  then show ?case by (cases n) auto
qed auto

lemma plain_not_allowed: "plain t \<Longrightarrow> \<not> ALLOWED_ANNOTATION_ELEMENTS t"
  by (cases t) (auto simp: ALLOWED_ANNOTATION_ELEMENTS_def)

lemma plain_not_metadata: "plain t \<Longrightarrow> \<not> is_AsRef t \<and> \<not> is_FieldInfo t"
  by (cases t) auto

lemma parse_AsRef_ModelCls:
  "parse_AsRef t fi r c s = Inr (w, c', s') \<Longrightarrow> \<exists>m. w = ModelCls m"
  by (auto simp: parse_AsRef_def Let_def create_model_def
           split: option.splits if_splits list.splits prod.splits)

lemma Optional_plain:
  "plain t \<Longrightarrow> canonical t \<Longrightarrow>
   plain (Optional t) \<and> canonical (Optional t) \<and> depth (Optional t) \<le> Suc (depth t)"
  using mk_union_stable [of "[t, Cls ''NoneType'']"] by (simp add: Optional_def)

lemma mk_annotated_plain: "plain t \<Longrightarrow> mk_annotated t ms = Annotated t ms"
  by (cases t) (auto simp: mk_annotated_def)

lemma get_field_type_plain:
  assumes "shaped b"
    and "get_field_type n f b c s = Inr (t', c', s')"
  shows "plain t' \<and> canonical t' \<and> depth t' + 2 \<le> n"
proof -
  from assms(2) obtain k where n: "n = Suc k" by (cases n) auto
  have "\<exists>t. plain t \<and> change_sub_typed_dicts_to_basemodels k t c s = Inr (t', c', s')"
  proof (cases b)
    case (Annotated t ms)
    with assms(1) have "filter (\<lambda>x. \<not> ALLOWED_ANNOTATION_ELEMENTS x) (get_args b) = [t]"
      by (auto simp: plain_not_allowed filter_empty_conv list_all_iff)
    with assms n Annotated show ?thesis by auto
  next
    case (Generic c0 args)
    with assms(1) have "filter (\<lambda>x. \<not> ALLOWED_ANNOTATION_ELEMENTS x) args = args"
      by (auto simp: plain_not_allowed list_all_iff intro!: filter_True)
    with assms n Generic show ?thesis
      by (cases "args = []")
         (auto split: list.splits if_splits simp: list_all_iff
               intro: exI [of _ "Generic c0 []"])
  next
    case (TypingAlias c0 args)
    with assms(1) have "filter (\<lambda>x. \<not> ALLOWED_ANNOTATION_ELEMENTS x) args = args"
      by (auto simp: plain_not_allowed list_all_iff intro!: filter_True)
    with assms n TypingAlias show ?thesis
      by (cases "args = []")
         (auto split: list.splits if_splits simp: list_all_iff
               intro: exI [of _ "TypingAlias c0 []"])
  next
    case (Cls x)
    with assms n show ?thesis by (intro exI [of _ b]) auto
  next
    case (TypedDictCls x)
    with assms n show ?thesis by (intro exI [of _ b]) auto
  next
    case (ModelCls x)
    with assms n show ?thesis by (intro exI [of _ b]) auto
  qed (use assms n in auto)
  then obtain t where "plain t" "change_sub_typed_dicts_to_basemodels k t c s = Inr (t', c', s')"
    by blast
  from change_sub_plain [OF this] n show ?thesis by simp
qed

lemma field_parser_well_shaped:
  assumes "well_shaped a" and "field_parser n f a c s = Inr (a', c', s')"
  shows "normalised n a'"
proof -
  from assms(2) obtain k where n: "n = Suc k" by (cases n) auto
  define b where "b = (case a of NotRequired t \<Rightarrow> t | _ \<Rightarrow> a)"
  define opt where "opt = (get_origin a = Some ONotRequired)"
  have fr: "field_is_not_required a True = Inr (b, opt)"
    by (cases a) (auto simp: field_is_not_required_def b_def opt_def)
  have shape: "shaped b"
    using assms(1) by (cases a) (auto simp: b_def)
  obtain as_ref field_info where gc: "get_annotation_contents b = (as_ref, field_info)"
    by (cases "get_annotation_contents b")
  with get_annotation_contents_FieldInfo [of b] have fi: "is_FieldInfo field_info" by simp
  from assms(2) n fr gc obtain t2 c2 s2 t3 fi3 where
    gft: "get_field_type k f b c s = Inr (t2, c2, s2)" and
    t3: "(as_ref = None \<and> t3 = t2 \<and> fi3 = field_info) \<or>
         (\<exists>r c3 s3. as_ref = Some r \<and> parse_AsRef t2 field_info r c2 s2 = Inr (t3, c3, s3) \<and>
            fi3 = set_regex None field_info)" and
    a': "a' = mk_annotated (if opt then Optional t3 else t3) [fi3]"
    by (auto split: sum.splits option.splits prod.splits)
  from get_field_type_plain [OF shape gft] have t2: "plain t2" "canonical t2" "depth t2 + 2 \<le> k"
    by auto
  from t3 t2 have p3: "plain t3 \<and> canonical t3 \<and> depth t3 + 2 \<le> k"
    using parse_AsRef_ModelCls by fastforce
  from t3 fi have fi3: "is_FieldInfo fi3"
    by (auto simp: is_FieldInfo_set_regex)
  let ?T = "if opt then Optional t3 else t3"
  from p3 Optional_plain [of t3] have "plain ?T \<and> canonical ?T \<and> depth ?T + 2 \<le> n"
    by (auto simp: n)
  with fi3 show ?thesis
    by (simp add: a' mk_annotated_plain normalised_def)
qed

lemma field_parser_again:
  assumes "normalised n a" and "n < m"
  shows "field_parser m f a c s = Inr (a, c, s)"
proof -
  from assms(1) obtain t fi where a: "a = Annotated t [fi]" and t: "plain t" "canonical t"
    "depth t + 2 \<le> n" and fi: "is_FieldInfo fi"
    by (auto simp: normalised_def split: anno.splits list.splits)
  from assms(2) t(3) obtain k where m: "m = Suc (Suc k)" and d: "depth t < k"
    by (cases m; cases "m - 1") auto
  have fr: "field_is_not_required a True = Inr (a, False)"
    by (simp add: a field_is_not_required_def)
  have gc: "get_annotation_contents a = (None, fi)"
    using plain_not_metadata [OF t(1)] fi
    by (cases fi) (auto simp: a get_annotation_contents_def)
  have "filter (\<lambda>x. \<not> ALLOWED_ANNOTATION_ELEMENTS x) (get_args a) = [t]"
    using plain_not_metadata [OF t(1)] fi
    by (cases fi) (auto simp: a ALLOWED_ANNOTATION_ELEMENTS_def)
  then have "get_field_type (Suc k) f a c s = Inr (t, c, s)"
    using change_sub_canonical [OF t(1,2) d] by (simp add: a)
  with fr gc show ?thesis
    by (simp add: m mk_annotated_plain [OF t(1)]) (simp add: a)
qed

lemma parse_fields_again:
  assumes "list_all (\<lambda>(f, a). normalised n a) fs" and "n < m"
    and "distinct (map fst acc @ map fst fs)"
  shows "parse_fields m fs acc c s = Inr (acc @ fs, c, s)"
  using assms
proof (induction fs arbitrary: acc)
  case Nil
  then show ?case by simp
next
  case (Cons p fs)
  obtain f a where p: "p = (f, a)" by (cases p)
  from Cons.prems have fp: "field_parser m f a c s = Inr (a, c, s)"
    by (auto simp: p intro: field_parser_again)
  from Cons.prems(3) have up: "AList.update f a acc = acc @ [(f, a)]"
    by (induction acc) (auto simp: p)
  have "parse_fields m fs (acc @ [(f, a)]) c s = Inr ((acc @ [(f, a)]) @ fs, c, s)"
    using Cons.prems by (intro Cons.IH) (auto simp: p)
  with fp up show ?case by (simp add: p)
qed

lemma parse_fields_normalised:
  assumes "parse_fields n fs acc c s = Inr (res, c', s')"
    and "list_all (\<lambda>(f, a). well_shaped a) fs"
    and "list_all (\<lambda>(f, a). normalised n a) acc"
  shows "list_all (\<lambda>(f, a). normalised n a) res"
  using assms
proof (induction fs arbitrary: acc c s)
  case Nil
  then show ?case by simp
next
  case (Cons p fs)
  obtain f t where p: "p = (f, t)" by (cases p)
  from Cons.prems(1) obtain a c1 s1 where
    fp: "field_parser n f t c s = Inr (a, c1, s1)" and
    rest: "parse_fields n fs (AList.update f a acc) c1 s1 = Inr (res, c', s')"
    by (auto simp: p split: sum.splits)
  from Cons.prems(2) have "well_shaped t" by (simp add: p)
  from field_parser_well_shaped [OF this fp] Cons.prems(3)
  have "list_all (\<lambda>(f, a). normalised n a) (AList.update f a acc)"
    by (induction acc) auto
  with Cons.IH [OF rest] Cons.prems(2) show ?case by simp
qed


subsection \<open>Two runs\<close>

lemma create_model_of:
  "create_model name (map (\<lambda>(name, field). (name, field, getattr_default td name))
                          (td_annotations td)) s
   = (if list_ex (\<lambda>(f, a). f \<in> set BaseModel_attributes) (td_annotations td)
      then Inl NameError
      else Inr (length (models s),
                s\<lparr>models := models s @ [(model_of name td)\<lparr>m_doc := None\<rparr>]\<rparr>))"
  by (simp add: create_model_def model_of_def case_prod_unfold comp_def list_ex_iff)

lemma typeddict_to_basemodel_run:
  assumes "typeddict_to_basemodel n td c s = Inr (m, c', s')"
    and "map_of (typed_dicts s) td = Some d"
    and "distinct (map fst (td_annotations d))"
    and "list_all (\<lambda>(f, a). well_shaped a) (td_annotations d)"
  shows "\<exists>d' ms. map_of (typed_dicts s') td = Some d' \<and>
           distinct (map fst (td_annotations d')) \<and>
           list_all (\<lambda>(f, a). normalised (n - 2) a) (td_annotations d') \<and>
           \<not> list_ex (\<lambda>(f, a). f \<in> set BaseModel_attributes) (td_annotations d') \<and>
           models s' = ms @ [model_of td d'] \<and> m = length ms"
proof -
  from assms(1) obtain k where n: "n = Suc k" by (cases n) auto
  with assms(1) obtain sf d' where
    fmt: "format_all_annotations k td c s = Inr (c', sf)" and
    d': "map_of (typed_dicts sf) td = Some d'" and
    m: "m = length (models sf)" and
    ok: "\<not> list_ex (\<lambda>(f, a). f \<in> set BaseModel_attributes) (td_annotations d')" and
    s': "s' = sf\<lparr>models := models sf @ [model_of td d']\<rparr>"
    by (auto simp: create_model_of model_of_def split: sum.splits option.splits if_splits)
  from fmt obtain j where k: "k = Suc j" by (cases k) auto
  with fmt assms(2) obtain new sp d1 where
    pf: "parse_fields j (td_annotations d) [] c s = Inr (new, c', sp)" and
    sf: "sf = sp\<lparr>typed_dicts := AList.update td (d1\<lparr>td_annotations := new\<rparr>) (typed_dicts sp)\<rparr>"
    by (auto split: sum.splits option.splits)
  from d' sf have new: "td_annotations d' = new"
    by (auto simp: AList.update_conv')
  from parse_fields_keys [OF pf] assms(3) have "distinct (map fst new)" by simp
  moreover from parse_fields_normalised [OF pf assms(4)]
  have "list_all (\<lambda>(f, a). normalised j a) new" by simp
  ultimately show ?thesis
    using d' m s' new n k ok by (auto simp: sf)
qed

lemma typeddict_to_basemodel_again:
  assumes "map_of (typed_dicts s) td = Some d"
    and "distinct (map fst (td_annotations d))"
    and "list_all (\<lambda>(f, a). normalised k a) (td_annotations d)"
    and "k + 2 < n"
    and "\<not> list_ex (\<lambda>(f, a). f \<in> set BaseModel_attributes) (td_annotations d)"
  shows "typeddict_to_basemodel n td c s
         = Inr (length (models s), c, s\<lparr>models := models s @ [model_of td d]\<rparr>)"
proof -
  from assms(4) obtain j where n: "n = Suc (Suc j)" and j: "k < j"
    by (cases n; cases "n - 1") auto
  from parse_fields_again [OF assms(3) j, of "[]"] assms(2)
  have pf: "parse_fields j (td_annotations d) [] c s = Inr (td_annotations d, c, s)"
    by simp
  have "AList.update td d (typed_dicts s) = typed_dicts s"
    using assms(1) by (rule AList.update_triv)
  with pf assms(1) have "format_all_annotations (Suc j) td c s = Inr (c, s)"
    by simp
  with assms(1,5) show ?thesis
    by (simp add: n create_model_of) (simp add: model_of_def)
qed

lemma write_schema_keeps:
  "write_schema out_directory sch s = Inr s' \<Longrightarrow>
   typed_dicts s' = typed_dicts s \<and> models s' = models s \<and>
   default_new_basemodel_classes s' = default_new_basemodel_classes s \<and>
   extra_schema s' = extra_schema s"
  by (auto simp: write_schema_def split: out_dir.splits option.splits json.splits if_splits)

lemma write_schema_again:
  "write_schema out_directory sch s = Inr s' \<Longrightarrow> files t = files s' \<Longrightarrow>
   \<exists>t'. write_schema out_directory sch t = Inr t' \<and> files t' = files s' \<and>
        typed_dicts t' = typed_dicts t \<and>
        default_new_basemodel_classes t' = default_new_basemodel_classes t"
  by (auto simp: write_schema_def split: out_dir.splits option.splits json.splits if_splits)

lemma second_run:
  assumes "\<forall>ms m. m < length ms \<longrightarrow> schema (ms @ [ms ! m]) (length ms) = schema ms m"
    and "map_of (typed_dicts s) td = Some d"
    and "distinct (map fst (td_annotations d))"
    and "list_all (\<lambda>(f, a). well_shaped a) (td_annotations d)"
    and "parse_typeddict_to_schema schema n td out_directory False None sort_properties s
           = Inr (SchemaResult rendered, c1, s1)"
    and "n < n'"
  shows "\<exists>s2. parse_typeddict_to_schema schema n' td out_directory False None sort_properties s1
                 = Inr (SchemaResult rendered, c1, s2) \<and>
              files s2 = files s1 \<and> typed_dicts s2 = typed_dicts s1 \<and>
              default_new_basemodel_classes s2 = default_new_basemodel_classes s1"
proof -
  let ?snake = "map lower (alias_generator td)"
  from assms(5) obtain m sa sch sch1 where
    run: "typeddict_to_basemodel n td (default_new_basemodel_classes s) s = Inr (m, c1, sa)" and
    render: "schema (models (set_name m ?snake (keep_cache None c1 sa))) m = Inr sch" and
    strip: "strip_newline_literal sch = Inr sch1" and
    post: "(if sort_properties then sort_jsonschema (add_extra_schema td sch1 sa)
            else Inr (add_extra_schema td sch1 sa)) = Inr rendered" and
    wr: "write_schema out_directory rendered (set_name m ?snake (keep_cache None c1 sa)) = Inr s1"
    by (auto simp: parse_typeddict_to_schema_def split: sum.splits)
  from typeddict_to_basemodel_run [OF run assms(2,3,4)] obtain d' ms where
    d': "map_of (typed_dicts sa) td = Some d'" and
    dist: "distinct (map fst (td_annotations d'))" and
    norm: "list_all (\<lambda>(f, a). normalised (n - 2) a) (td_annotations d')" and
    ok: "\<not> list_ex (\<lambda>(f, a). f \<in> set BaseModel_attributes) (td_annotations d')" and
    msa: "models sa = ms @ [model_of td d']" and m: "m = length ms"
    by blast
  have ms3: "models (set_name m ?snake (keep_cache None c1 sa))
               = ms @ [(model_of td d')\<lparr>m_name := ?snake\<rparr>]"
    by (simp add: set_name_def keep_cache_def msa m)
  from write_schema_keeps [OF wr] have keep: "typed_dicts s1 = typed_dicts sa"
    "models s1 = ms @ [(model_of td d')\<lparr>m_name := ?snake\<rparr>]"
    "default_new_basemodel_classes s1 = c1" "extra_schema s1 = extra_schema sa"
    by (simp_all add: ms3) (simp_all add: set_name_def keep_cache_def)
  from run have "2 \<le> n"
    by (cases n; cases "n - 1") (auto split: sum.splits)
  with assms(6) have fuel: "(n - 2) + 2 < n'" by simp
  from d' keep(1) have d1: "map_of (typed_dicts s1) td = Some d'" by simp
  define sb where "sb = s1\<lparr>models := models s1 @ [model_of td d']\<rparr>"
  have again: "typeddict_to_basemodel n' td c1 s1 = Inr (length (models s1), c1, sb)"
    unfolding sb_def by (rule typeddict_to_basemodel_again [OF d1 dist norm fuel ok])
  let ?sc = "set_name (length (models s1)) ?snake (keep_cache None c1 sb)"
  have msc: "models ?sc = models s1 @ [models s1 ! m]"
    by (simp add: set_name_def keep_cache_def sb_def keep m nth_append list_update_append)
  have "m < length (models s1)" by (simp add: keep m)
  with assms(1)
  have same: "schema (models s1 @ [models s1 ! m]) (length (models s1)) = schema (models s1) m"
    by blast
  from render have render1: "schema (models s1) m = Inr sch"
    by (simp add: ms3 keep(2))
  have render2: "schema (models ?sc) (length (models s1)) = Inr sch"
    by (simp only: msc same render1)
  have extra: "add_extra_schema td sch1 sb = add_extra_schema td sch1 sa"
    by (simp add: add_extra_schema_def sb_def keep)
  have "files ?sc = files s1"
    by (simp add: set_name_def keep_cache_def sb_def)
  moreover have "write_schema out_directory rendered s1 = Inr s1"
    using wr
    by (auto simp: write_schema_def split: out_dir.splits option.splits json.splits if_splits)
  ultimately obtain s2 where
    w2: "write_schema out_directory rendered ?sc = Inr s2" and
    f2: "files s2 = files s1" "typed_dicts s2 = typed_dicts ?sc"
        "default_new_basemodel_classes s2 = default_new_basemodel_classes ?sc"
    using write_schema_again [of out_directory rendered s1 s1 ?sc] by blast
  have "parse_typeddict_to_schema schema n' td out_directory False None sort_properties s1
          = Inr (SchemaResult rendered, c1, s2)"
    using again render2 strip post w2 extra
    by (cases sort_properties) (simp_all add: parse_typeddict_to_schema_def keep)
  moreover have "typed_dicts ?sc = typed_dicts s1" "default_new_basemodel_classes ?sc = c1"
    by (simp_all add: set_name_def keep_cache_def sb_def)
  ultimately show ?thesis using f2 keep by auto
qed

lemma deeper_add:
  "change_sub_typed_dicts_to_basemodels n t c s = Inr r1 \<Longrightarrow>
     change_sub_typed_dicts_to_basemodels (n + d) t c s = Inr r1"
  "change_args n ts c s = Inr r2 \<Longrightarrow> change_args (n + d) ts c s = Inr r2"
  "typeddict_to_basemodel n td c s = Inr r3 \<Longrightarrow>
     typeddict_to_basemodel (n + d) td c s = Inr r3"
  "format_all_annotations n td c s = Inr r4 \<Longrightarrow>
     format_all_annotations (n + d) td c s = Inr r4"
  "parse_fields n fs acc c s = Inr r5 \<Longrightarrow> parse_fields (n + d) fs acc c s = Inr r5"
  "field_parser n f t c s = Inr r6 \<Longrightarrow> field_parser (n + d) f t c s = Inr r6"
  "get_field_type n f t c s = Inr r7 \<Longrightarrow> get_field_type (n + d) f t c s = Inr r7"
proof (induction n t c s and n ts c s and n td c s and n td c s and n fs acc c s
         and n f t c s and n f t c s
    arbitrary: r1 and r2 and r3 and r4 and r5 and r6 and r7
    rule: change_sub_typed_dicts_to_basemodels_change_args_typeddict_to_basemodel_format_all_annotations_parse_fields_field_parser_get_field_type.induct)
  case (4 n arg args new_basemodel_classes s)
  from "4.prems" obtain a1 c1 s1 as1 c2 s2 where
    one: "change_sub_typed_dicts_to_basemodels n arg new_basemodel_classes s = Inr (a1, c1, s1)"
    and two: "change_args n args c1 s1 = Inr (as1, c2, s2)"
    and r2: "r2 = (a1 # as1, c2, s2)"
    by (auto split: sum.splits)
  from "4.IH"(1) [OF one] "4.IH"(2) [OF one refl refl two] r2 show ?case by simp
next
  case (12 n field_name field_type new_basemodel_classes s)
  from "12.prems" obtain ft1 b where
    fr: "field_is_not_required field_type True = Inr (ft1, b)"
    by (auto split: sum.splits)
  obtain as_ref fi where gc: "get_annotation_contents ft1 = (as_ref, fi)"
    by (cases "get_annotation_contents ft1")
  from "12.prems" fr gc obtain t2 c2 s2 where
    gft: "get_field_type n field_name ft1 new_basemodel_classes s = Inr (t2, c2, s2)"
    by (auto split: sum.splits)
  from "12.IH" [OF fr refl refl gc [symmetric] gft]
  have "get_field_type (n + d) field_name ft1 new_basemodel_classes s = Inr (t2, c2, s2)" .
  with "12.prems" fr gc gft show ?case by simp
qed (auto split: sum.splits option.splits prod.splits if_splits list.splits)

lemma deeper:
  "typeddict_to_basemodel n td c s = Inr r \<Longrightarrow> n \<le> n' \<Longrightarrow>
     typeddict_to_basemodel n' td c s = Inr r"
  using deeper_add(3) [of n td c s r "n' - n"] by simp

lemma parse_typeddict_to_schema_deeper:
  assumes "parse_typeddict_to_schema schema n td out_directory rb nbc sortp s = Inr r"
    and "n \<le> n'"
  shows "parse_typeddict_to_schema schema n' td out_directory rb nbc sortp s = Inr r"
proof -
  from assms(1) obtain x where
    "typeddict_to_basemodel n td
       (case nbc of None \<Rightarrow> default_new_basemodel_classes s | Some c \<Rightarrow> c) s = Inr x"
    by (auto simp: parse_typeddict_to_schema_def split: sum.splits)
  from this deeper [OF this assms(2)] assms(1) show ?thesis
    by (simp add: parse_typeddict_to_schema_def)
qed


text \<open>
  Claim C5. Take a declaration whose field annotations have the shapes the generator
  documents, and a renderer that gives the same schema for a second model class created
  with the same name, fields and docstring. If \<^verbatim>\<open>parse_typeddict_to_schema\<close>, called
  as \<^verbatim>\<open>generate_all_schema\<close> calls it, returns a schema at some call depth, then at
  every greater depth it returns that schema and leaves the same state, and called again
  in that state it returns the same schema and writes the same content to the same
  file. The second run changes neither the declarations nor the cache.
\<close>

theorem regenerate_same_output:
  assumes "\<forall>ms m. m < length ms \<longrightarrow> schema (ms @ [ms ! m]) (length ms) = schema ms m"
    and "map_of (typed_dicts s) td = Some d"
    and "distinct (map fst (td_annotations d))"
    and "list_all (\<lambda>(f, a). well_shaped a) (td_annotations d)"
    and "parse_typeddict_to_schema schema n td out_directory False None sort_properties s
           = Inr (SchemaResult rendered, c1, s1)"
    and "n < n'"
  shows "parse_typeddict_to_schema schema n' td out_directory False None sort_properties s
           = Inr (SchemaResult rendered, c1, s1) \<and>
         (\<exists>s2. parse_typeddict_to_schema schema n' td out_directory False None
                   sort_properties s1
                 = Inr (SchemaResult rendered, c1, s2) \<and>
               files s2 = files s1 \<and> typed_dicts s2 = typed_dicts s1 \<and>
               default_new_basemodel_classes s2 = default_new_basemodel_classes s1)"
proof -
  from assms(6) have "n \<le> n'" by simp
  from parse_typeddict_to_schema_deeper [OF assms(5) this]
    second_run [OF assms]
  show ?thesis by simp
qed

theorem regenerate_same_output_witness:
  "map_of (typed_dicts at_import) ''EventPage'' = Some EventPage \<and>
   distinct (map fst (td_annotations EventPage)) \<and>
   list_all (\<lambda>(f, a). well_shaped a) (td_annotations EventPage) \<and>
   (\<exists>c1 s1 s2.
      parse_typeddict_to_schema outline_schema 1000 ''EventPage''
          (PathObj ''event_model/schemas'') False None True at_import
        = Inr (SchemaResult event_page_outline, c1, s1) \<and>
      files s1 = [((''event_model/schemas'', ''event_page.json''), event_page_outline)] \<and>
      parse_typeddict_to_schema outline_schema 1000 ''EventPage''
          (PathObj ''event_model/schemas'') False None True s1
        = Inr (SchemaResult event_page_outline, c1, s2) \<and>
      files s2 = files s1)"
proof -
  have same: "\<forall>ms m. m < length ms \<longrightarrow>
      outline_schema (ms @ [ms ! m]) (length ms) = outline_schema ms m"
    by (simp add: outline_schema_def)
  have decl: "map_of (typed_dicts at_import) ''EventPage'' = Some EventPage"
    by (simp add: at_import_def)
  have names: "distinct (map fst (td_annotations EventPage))"
    by (simp add: EventPage_def)
  have shapes: "list_all (\<lambda>(f, a). well_shaped a) (td_annotations EventPage)"
    by code_simp
  have "map_option fst (returned (parse_typeddict_to_schema outline_schema 999 ''EventPage''
          (PathObj ''event_model/schemas'') False None True at_import))
      = Some (SchemaResult event_page_outline)"
    by code_simp
  then obtain c1 s1 where run: "parse_typeddict_to_schema outline_schema 999 ''EventPage''
          (PathObj ''event_model/schemas'') False None True at_import
      = Inr (SchemaResult event_page_outline, c1, s1)"
    by (auto simp: returned_def split: sum.splits)
  have "map_option (\<lambda>(r, c, s). files s)
          (returned (parse_typeddict_to_schema outline_schema 999 ''EventPage''
             (PathObj ''event_model/schemas'') False None True at_import))
      = Some [((''event_model/schemas'', ''event_page.json''), event_page_outline)]"
    by code_simp
  with run have written:
    "files s1 = [((''event_model/schemas'', ''event_page.json''), event_page_outline)]"
    by (simp add: returned_def)
  from regenerate_same_output [OF same decl names shapes run, of 1000] written decl names shapes
  show ?thesis by auto
qed

end
